theory Spec2Isabelle
  imports Main "HOL-Library.Char_ord" "HOL-Library.List_Lexorder" "HOL-Library.Multiset"
begin

section \<open>Python values and exceptions\<close>

text \<open>
  The response vectors handed to the scorers are Python lists. Their elements are modelled
  by the values the check \<^verbatim>\<open>isinstance(x, int)\<close> can tell apart: integers, booleans
  (\<^verbatim>\<open>bool\<close> is a subclass of \<^verbatim>\<open>int\<close>, \<^verbatim>\<open>True\<close> counting as 1), and two kinds
  of objects that are not integers.
\<close>

datatype pyval = PInt int | PBool bool | PStr string | PNone

text \<open>
  Exceptions are values. \<open>ValueError\<close> carries the message of the \<^verbatim>\<open>raise\<close>; the
  messages of exceptions raised inside the libraries are shortened.
\<close>

datatype error = ValueError string | TypeError string | OverflowError string

text \<open>The integer an \<^verbatim>\<open>int\<close> instance stands for; \<open>None\<close> for any other object.\<close>

fun int_of :: "pyval \<Rightarrow> int option" where
  "int_of (PInt n) = Some n"
| "int_of (PBool b) = Some (if b then 1 else 0)"
| "int_of (PStr s) = None"
| "int_of PNone = None"

text \<open>\<^verbatim>\<open>isinstance(x, int) and 0 <= x <= hi\<close>, the second conjunct read only on integers.\<close>

definition int_in_range :: "int \<Rightarrow> pyval \<Rightarrow> bool" where
  "int_in_range hi x = (case int_of x of None \<Rightarrow> False | Some n \<Rightarrow> 0 \<le> n \<and> n \<le> hi)"

text \<open>
  The builtin \<^verbatim>\<open>sum\<close>: it starts from 0 and adds the elements from left to right, raising
  \<^verbatim>\<open>TypeError\<close> at the first element that cannot be added to an integer.
\<close>

fun py_sum :: "int \<Rightarrow> pyval list \<Rightarrow> error + int" where
  "py_sum acc [] = Inr acc"
| "py_sum acc (x # xs) =
     (case int_of x of
        None \<Rightarrow> Inl (TypeError ''unsupported operand type(s) for +'')
      | Some n \<Rightarrow> py_sum (acc + n) xs)"

section \<open>Scorer (backend.py)\<close>

definition calculate_burns_score :: "pyval list \<Rightarrow> error + int" where
  "calculate_burns_score responses =
     (if length responses \<noteq> 25 then Inl (ValueError ''Must provide exactly 25 responses'')
      else if \<not> list_all (int_in_range 4) responses
        then Inl (ValueError ''All responses must be integers between 0 and 4'')
      else py_sum 0 responses)"

definition calculate_gad7_score :: "pyval list \<Rightarrow> error + int" where
  "calculate_gad7_score responses =
     (if length responses \<noteq> 7 then Inl (ValueError ''Must provide exactly 7 responses'')
      else if \<not> list_all (int_in_range 3) responses
        then Inl (ValueError ''All responses must be integers between 0 and 3'')
      else py_sum 0 responses)"

section \<open>Classifier (backend.py)\<close>

definition get_depression_level :: "int \<Rightarrow> string" where
  "get_depression_level score =
     (if 0 \<le> score \<and> score \<le> 5 then ''No Depression''
      else if 6 \<le> score \<and> score \<le> 10 then ''Normal but unhappy''
      else if 11 \<le> score \<and> score \<le> 25 then ''Mild depression''
      else if 26 \<le> score \<and> score \<le> 50 then ''Moderate depression''
      else if 51 \<le> score \<and> score \<le> 75 then ''Severe depression''
      else if 76 \<le> score \<and> score \<le> 100 then ''Extreme depression''
      else ''Invalid score'')"

definition get_anxiety_level :: "int \<Rightarrow> string" where
  "get_anxiety_level score =
     (if 0 \<le> score \<and> score \<le> 4 then ''Minimal anxiety''
      else if 5 \<le> score \<and> score \<le> 9 then ''Mild anxiety''
      else if 10 \<le> score \<and> score \<le> 14 then ''Moderate anxiety''
      else if 15 \<le> score \<and> score \<le> 21 then ''Severe anxiety''
      else ''Invalid score'')"

subsection \<open>The band tables as the specification words them\<close>

text \<open>
  The specification gives each classifier as an ordered list of inclusive bands
  \<open>(low, high, label)\<close>. These two tables follow its wording, not the code; the theorems
  below compare the code with them.
\<close>

type_synonym band = "int \<times> int \<times> string"

definition spec_depression_bands :: "band list" where
  "spec_depression_bands =
     [(0, 5, ''No Depression''), (6, 10, ''Normal but unhappy''), (11, 25, ''Mild depression''),
      (26, 50, ''Moderate depression''), (51, 75, ''Severe depression''),
      (76, 100, ''Extreme depression'')]"

definition spec_anxiety_bands :: "band list" where
  "spec_anxiety_bands =
     [(0, 4, ''Minimal anxiety''), (5, 9, ''Mild anxiety''), (10, 14, ''Moderate anxiety''),
      (15, 21, ''Severe anxiety'')]"

fun in_band :: "int \<Rightarrow> band \<Rightarrow> bool" where
  "in_band score (lo, hi, label) = (lo \<le> score \<and> score \<le> hi)"

fun band_label :: "band \<Rightarrow> string" where
  "band_label (lo, hi, label) = label"

text \<open>The bands of a table that contain a score.\<close>

definition bands_containing :: "band list \<Rightarrow> int \<Rightarrow> band list" where
  "bands_containing bands score = filter (in_band score) bands"

text \<open>The sample response vector of the specification and of the demonstration path.\<close>

definition sample_burns_responses :: "pyval list" where
  "sample_burns_responses =
     map PInt [2, 1, 0, 2, 1, 3, 2, 1, 0, 2, 1, 0, 2, 1, 3, 2, 1, 0, 2, 1, 0, 2, 1, 0, 0]"

definition sample_gad7_responses :: "pyval list" where
  "sample_gad7_responses = map PInt [1, 2, 3, 2, 1, 0, 1]"

section \<open>Dates and times (the datetime library)\<close>

text \<open>
  A naive \<^verbatim>\<open>datetime\<close> object is its seven fields. The library keeps them within
  the ranges of \<open>valid_datetime\<close>: \<^verbatim>\<open>datetime.now()\<close>, the conversion of a Qt date-time
  and \<^verbatim>\<open>strptime\<close> never produce anything else.
\<close>

record datetime =
  year :: nat
  month :: nat
  day :: nat
  hour :: nat
  minute :: nat
  second :: nat
  microsecond :: nat

definition is_leap :: "nat \<Rightarrow> bool" where
  "is_leap y = (y mod 4 = 0 \<and> (y mod 100 \<noteq> 0 \<or> y mod 400 = 0))"

definition days_in_month :: "nat \<Rightarrow> nat \<Rightarrow> nat" where
  "days_in_month y m =
     (if m = 2 then (if is_leap y then 29 else 28)
      else if m = 4 \<or> m = 6 \<or> m = 9 \<or> m = 11 then 30
      else 31)"

definition valid_datetime :: "datetime \<Rightarrow> bool" where
  "valid_datetime d =
     (1 \<le> year d \<and> year d \<le> 9999 \<and> 1 \<le> month d \<and> month d \<le> 12 \<and>
      1 \<le> day d \<and> day d \<le> days_in_month (year d) (month d) \<and>
      hour d < 24 \<and> minute d < 60 \<and> second d < 60 \<and> microsecond d < 1000000)"

text \<open>\<^verbatim>\<open>datetime.min\<close>, the earliest representable time.\<close>

definition datetime_min :: datetime where
  "datetime_min =
     \<lparr>year = 1, month = 1, day = 1, hour = 0, minute = 0, second = 0, microsecond = 0\<rparr>"

text \<open>
  Naive date-times compare as the tuples of their fields, from the year down to the
  microsecond: \<open>datetime_le a b\<close> is \<^verbatim>\<open>a <= b\<close>, \<open>datetime_less a b\<close> is \<^verbatim>\<open>a < b\<close>.
\<close>

definition datetime_key :: "datetime \<Rightarrow> nat list" where
  "datetime_key d = [year d, month d, day d, hour d, minute d, second d, microsecond d]"

definition datetime_le :: "datetime \<Rightarrow> datetime \<Rightarrow> bool" where
  "datetime_le a b = (datetime_key a \<le> datetime_key b)"

definition datetime_less :: "datetime \<Rightarrow> datetime \<Rightarrow> bool" where
  "datetime_less a b = (datetime_key a < datetime_key b)"

subsection \<open>Rendering: \<^verbatim>\<open>strftime('%Y-%m-%d %H:%M:%S')\<close>\<close>

definition digit_char :: "nat \<Rightarrow> char" where
  "digit_char n = char_of (48 + n)"

text \<open>The last \<open>w\<close> decimal digits of \<open>n\<close>, padded with zeros on the left.\<close>

fun zero_pad :: "nat \<Rightarrow> nat \<Rightarrow> string" where
  "zero_pad 0 n = []"
| "zero_pad (Suc w) n = zero_pad w (n div 10) @ [digit_char (n mod 10)]"

text \<open>\<^verbatim>\<open>str\<close> of a natural number: its decimal digits, without padding.\<close>

fun str_nat :: "nat \<Rightarrow> string" where
  "str_nat n = (if n < 10 then [digit_char n] else str_nat (n div 10) @ [digit_char (n mod 10)])"

declare str_nat.simps [simp del]

text \<open>
  The one format the program uses. The platform's C library renders \<^verbatim>\<open>%Y\<close> as the decimal
  number of the year without padding: four digits from the year 1000 on, fewer before
  (\<^verbatim>\<open>'999-01-01 00:00:00'\<close> for the first day of 999). The other fields are two digits
  each; the microsecond is dropped.
\<close>

definition strftime :: "datetime \<Rightarrow> string" where
  "strftime d =
     str_nat (year d) @ ''-'' @ zero_pad 2 (month d) @ ''-'' @ zero_pad 2 (day d) @ '' '' @
     zero_pad 2 (hour d) @ '':'' @ zero_pad 2 (minute d) @ '':'' @ zero_pad 2 (second d)"

text \<open>
  A reading of the wall clock, as \<^verbatim>\<open>datetime.now()\<close> gives it on a running system: a valid
  date-time whose year has four digits.
\<close>

definition wall_clock :: "datetime \<Rightarrow> bool" where
  "wall_clock d = (valid_datetime d \<and> 1000 \<le> year d)"

subsection \<open>Parsing: \<^verbatim>\<open>strptime(s, '%Y-%m-%d %H:%M:%S')\<close>\<close>

definition is_digit :: "char \<Rightarrow> bool" where
  "is_digit c = (48 \<le> (of_char c :: nat) \<and> (of_char c :: nat) \<le> 57)"

definition digits_value :: "string \<Rightarrow> nat" where
  "digits_value cs = foldl (\<lambda>acc c. 10 * acc + (of_char c - 48)) 0 cs"

text \<open>The layout of a rendered timestamp: 19 characters, digits around fixed separators.\<close>

definition timestamp_format :: "string \<Rightarrow> bool" where
  "timestamp_format s =
     (length s = 19 \<and>
      list_all is_digit
        (take 4 s @ take 2 (drop 5 s) @ take 2 (drop 8 s) @ take 2 (drop 11 s) @
         take 2 (drop 14 s) @ take 2 (drop 17 s)) \<and>
      s ! 4 = CHR ''-'' \<and> s ! 7 = CHR ''-'' \<and> s ! 10 = CHR '' '' \<and>
      s ! 13 = CHR '':'' \<and> s ! 16 = CHR '':'')"

text \<open>
  The text of that layout for a date-time: every field in its full width, the year in four
  digits. It is the string the parser reads back as the date-time, and what \<open>strftime\<close>
  gives from the year 1000 on.
\<close>

definition timestamp_text :: "datetime \<Rightarrow> string" where
  "timestamp_text d =
     zero_pad 4 (year d) @ ''-'' @ zero_pad 2 (month d) @ ''-'' @ zero_pad 2 (day d) @ '' '' @
     zero_pad 2 (hour d) @ '':'' @ zero_pad 2 (minute d) @ '':'' @ zero_pad 2 (second d)"

text \<open>
  The parser on strings of that layout: the fields are read as numbers and the date-time is
  built, which raises \<^verbatim>\<open>ValueError\<close> for a field out of range (month 13, 30 February,
  year 0). The library also accepts some strings outside the layout (fields without their
  leading zero, several blanks between date and time); the model rejects all of them, so it
  is used below only where it succeeds.
\<close>

definition strptime :: "string \<Rightarrow> error + datetime" where
  "strptime s =
     (if timestamp_format s then
        (let d = \<lparr>year = digits_value (take 4 s), month = digits_value (take 2 (drop 5 s)),
                  day = digits_value (take 2 (drop 8 s)), hour = digits_value (take 2 (drop 11 s)),
                  minute = digits_value (take 2 (drop 14 s)),
                  second = digits_value (take 2 (drop 17 s)), microsecond = 0\<rparr>
         in if valid_datetime d then Inr d else Inl (ValueError ''field out of range''))
      else Inl (ValueError ''time data does not match format''))"

section \<open>Repository (backend.py)\<close>

text \<open>
  A row of either table, as \<^verbatim>\<open>fetchall\<close> returns it: the tuple
  \<open>(id, score, level, timestamp)\<close>, read by the front end as \<^verbatim>\<open>entry[0]\<close> to
  \<^verbatim>\<open>entry[3]\<close>.
\<close>

record entry =
  e_id :: nat
  e_score :: int
  e_level :: string
  e_timestamp :: string

text \<open>
  The database file after \<^verbatim>\<open>init_db\<close>: the rows of the two tables in insertion order, and
  for each table the counter that \<^verbatim>\<open>AUTOINCREMENT\<close> keeps of the largest row id it has
  ever given out. Failures of the storage itself (a full disk, a file that cannot be opened)
  are not modelled.
\<close>

record database =
  checklist_entries :: "entry list"
  checklist_seq :: nat
  gad7_entries :: "entry list"
  gad7_seq :: nat

text \<open>What \<^verbatim>\<open>init_db\<close> creates when the file has no tables yet.\<close>

definition fresh_db :: database where
  "fresh_db = \<lparr>checklist_entries = [], checklist_seq = 0, gad7_entries = [], gad7_seq = 0\<rparr>"

text \<open>
  The row id of an \<^verbatim>\<open>INTEGER PRIMARY KEY AUTOINCREMENT\<close> column: one more than the
  largest id that is or ever was in the table.
\<close>

definition next_rowid :: "nat \<Rightarrow> entry list \<Rightarrow> nat" where
  "next_rowid seq rows = Suc (fold max (map e_id rows) seq)"

text \<open>
  A Python integer is bound to an SQL parameter as a signed 64-bit \<^verbatim>\<open>INTEGER\<close>; the
  \<^verbatim>\<open>sqlite3\<close> module raises \<^verbatim>\<open>OverflowError\<close> for any other integer, before the
  statement runs.
\<close>

definition sqlite_int64 :: "int \<Rightarrow> bool" where
  "sqlite_int64 n = (- (2 ^ 63) \<le> n \<and> n < 2 ^ 63)"

text \<open>
  \<open>save_score now score db\<close>: \<open>now\<close> is what \<^verbatim>\<open>datetime.now()\<close> returns during the
  call. The result is the returned row id, or the exception, and the database afterwards.
\<close>

definition save_score :: "datetime \<Rightarrow> int \<Rightarrow> database \<Rightarrow> (error + nat) \<times> database" where
  "save_score now score db =
     (let depression_level = get_depression_level score;
          current_time = strftime now
      in if \<not> sqlite_int64 score
         then (Inl (OverflowError ''Python int too large to convert to SQLite INTEGER''), db)
         else
           (let entry_id = next_rowid (checklist_seq db) (checklist_entries db)
            in (Inr entry_id,
                db\<lparr>checklist_entries := checklist_entries db @
                      [\<lparr>e_id = entry_id, e_score = score, e_level = depression_level,
                        e_timestamp = current_time\<rparr>],
                    checklist_seq := entry_id\<rparr>)))"

definition save_gad7_score :: "datetime \<Rightarrow> int \<Rightarrow> database \<Rightarrow> (error + nat) \<times> database" where
  "save_gad7_score now score db =
     (let anxiety_level = get_anxiety_level score;
          current_time = strftime now
      in if \<not> sqlite_int64 score
         then (Inl (OverflowError ''Python int too large to convert to SQLite INTEGER''), db)
         else
           (let entry_id = next_rowid (gad7_seq db) (gad7_entries db)
            in (Inr entry_id,
                db\<lparr>gad7_entries := gad7_entries db @
                      [\<lparr>e_id = entry_id, e_score = score, e_level = anxiety_level,
                        e_timestamp = current_time\<rparr>],
                    gad7_seq := entry_id\<rparr>)))"

text \<open>
  \<^verbatim>\<open>ORDER BY timestamp DESC\<close>: the stored timestamps are text and compare character by
  character. SQL leaves the order of rows with equal timestamps open; here they stay in
  insertion order.
\<close>

definition order_by_timestamp_desc :: "entry list \<Rightarrow> entry list" where
  "order_by_timestamp_desc rows = rev (sort_key e_timestamp (rev rows))"

definition get_all_entries :: "database \<Rightarrow> entry list" where
  "get_all_entries db = order_by_timestamp_desc (checklist_entries db)"

definition get_all_gad7_entries :: "database \<Rightarrow> entry list" where
  "get_all_gad7_entries db = order_by_timestamp_desc (gad7_entries db)"

text \<open>A history of the repository: the save calls made so far, each with its clock reading.\<close>

datatype save_call = Save_score datetime int | Save_gad7_score datetime int

fun call_time :: "save_call \<Rightarrow> datetime" where
  "call_time (Save_score t s) = t"
| "call_time (Save_gad7_score t s) = t"

fun run_saves :: "save_call list \<Rightarrow> database \<Rightarrow> database" where
  "run_saves [] db = db"
| "run_saves (Save_score t s # calls) db = run_saves calls (snd (save_score t s db))"
| "run_saves (Save_gad7_score t s # calls) db = run_saves calls (snd (save_gad7_score t s db))"

text \<open>Every call of a history was made at a reading of the wall clock.\<close>

definition wall_clock_calls :: "save_call list \<Rightarrow> bool" where
  "wall_clock_calls calls = list_all (\<lambda>c. wall_clock (call_time c)) calls"

text \<open>No call of a history was made at a clock reading later than \<open>now\<close>.\<close>

definition saved_by :: "datetime \<Rightarrow> save_call list \<Rightarrow> bool" where
  "saved_by now calls = list_all (\<lambda>c. datetime_le (call_time c) now) calls"

section \<open>Front end (frontend.py)\<close>

text \<open>
  The part of the window the handlers read and write: the database file, the values of the
  spin boxes, the two result labels and the controls of the graph view.
\<close>

record tracker =
  store :: database
  burns_responses :: "int list"
  gad7_responses :: "int list"
  burns_result_label :: string
  gad7_result_label :: string
  graph_select :: string
  time_filter :: string
  date_from :: datetime
  date_to :: datetime

text \<open>\<^verbatim>\<open>str\<close> of an integer, for the result labels.\<close>

definition str_int :: "int \<Rightarrow> string" where
  "str_int i = (if i < 0 then ''-'' @ str_nat (nat (- i)) else str_nat (nat i))"

text \<open>
  The submit handlers. An exception of the scorer leaves the handler at once: the save and
  the label update after it are not run.
\<close>

definition calculate_burns_result :: "datetime \<Rightarrow> tracker \<Rightarrow> (error + unit) \<times> tracker" where
  "calculate_burns_result now self =
     (let scores = map PInt (burns_responses self)
      in case calculate_burns_score scores of
           Inl e \<Rightarrow> (Inl e, self)
         | Inr total_score \<Rightarrow>
             (case save_score now total_score (store self) of
                (Inl e, db) \<Rightarrow> (Inl e, self\<lparr>store := db\<rparr>)
              | (Inr entry_id, db) \<Rightarrow>
                  (Inr (),
                   self\<lparr>store := db,
                        burns_result_label :=
                          ''Your total score is: '' @ str_int total_score @ [CHR 0x0A] @
                          ''Depression Level: '' @ get_depression_level total_score\<rparr>)))"

definition calculate_gad7_result :: "datetime \<Rightarrow> tracker \<Rightarrow> (error + unit) \<times> tracker" where
  "calculate_gad7_result now self =
     (let scores = map PInt (gad7_responses self)
      in case calculate_gad7_score scores of
           Inl e \<Rightarrow> (Inl e, self)
         | Inr total_score \<Rightarrow>
             (case save_gad7_score now total_score (store self) of
                (Inl e, db) \<Rightarrow> (Inl e, self\<lparr>store := db\<rparr>)
              | (Inr entry_id, db) \<Rightarrow>
                  (Inr (),
                   self\<lparr>store := db,
                        gad7_result_label :=
                          ''Your total score is: '' @ str_int total_score @ [CHR 0x0A] @
                          ''Anxiety Level: '' @ get_anxiety_level total_score\<rparr>)))"

subsection \<open>The time filter of \<^verbatim>\<open>update_graph\<close>\<close>

text \<open>\<^verbatim>\<open>needle in text\<close> on strings.\<close>

fun starts_with :: "string \<Rightarrow> string \<Rightarrow> bool" where
  "starts_with [] text = True"
| "starts_with (p # ps) [] = False"
| "starts_with (p # ps) (c # cs) = (p = c \<and> starts_with ps cs)"

fun contains :: "string \<Rightarrow> string \<Rightarrow> bool" where
  "contains needle [] = (needle = [])"
| "contains needle (c # cs) = (starts_with needle (c # cs) \<or> contains needle cs)"

text \<open>
  The window \<open>(start_date, now)\<close> that the chain of comparisons on the filter's text leaves
  (lines 227 to 240). \<open>days_before t n\<close> stands for the library's \<^verbatim>\<open>t - timedelta(days=n)\<close>,
  which no property below depends on.
\<close>

definition resolve_window ::
  "(datetime \<Rightarrow> nat \<Rightarrow> datetime) \<Rightarrow> datetime \<Rightarrow> tracker \<Rightarrow> datetime \<times> datetime" where
  "resolve_window days_before now self =
     (let filter_type = time_filter self
      in if filter_type = ''Last Week'' then (days_before now 7, now)
         else if filter_type = ''Last Month'' then (days_before now 30, now)
         else if filter_type = ''Last Year'' then (days_before now 365, now)
         else if filter_type = ''Custom'' then (date_from self, date_to self)
         else (datetime_min, now))"

text \<open>
  The list comprehension of lines 242 to 245: each row's timestamp is parsed, a row is kept
  when its time lies in the window, and a kept row gives the pair of its score and its time.
  A timestamp that does not parse raises \<^verbatim>\<open>ValueError\<close> out of the comprehension.
\<close>

fun filter_entries :: "datetime \<Rightarrow> datetime \<Rightarrow> entry list \<Rightarrow> error + (int \<times> datetime) list" where
  "filter_entries start_date now [] = Inr []"
| "filter_entries start_date now (entry # entries) =
     (case strptime (e_timestamp entry) of
        Inl err \<Rightarrow> Inl err
      | Inr t \<Rightarrow>
          (case filter_entries start_date now entries of
             Inl err \<Rightarrow> Inl err
           | Inr rest \<Rightarrow>
               if datetime_le start_date t \<and> datetime_le t now then Inr ((e_score entry, t) # rest)
               else Inr rest))"

text \<open>
  \<open>update_graph days_before now self\<close> returns \<^verbatim>\<open>filtered_entries\<close>, the points that are
  plotted; \<open>now\<close> is the clock reading of the call.
\<close>

definition update_graph ::
  "(datetime \<Rightarrow> nat \<Rightarrow> datetime) \<Rightarrow> datetime \<Rightarrow> tracker \<Rightarrow> error + (int \<times> datetime) list" where
  "update_graph days_before now self =
     (let graph_type = graph_select self;
          entries = (if contains ''Depression'' graph_type then get_all_entries (store self)
                     else get_all_gad7_entries (store self));
          window = resolve_window days_before now self
      in filter_entries (fst window) (snd window) entries)"

subsection \<open>The filter as the specification words it\<close>

text \<open>
  An entry lies in a window when its parsed timestamp \<open>t\<close> satisfies
  \<open>start \<le> t \<le> end\<close>; \<open>parses\<close> says that the timestamp of an entry is one the parser
  accepts.
\<close>

definition parses :: "entry \<Rightarrow> bool" where
  "parses e = (case strptime (e_timestamp e) of Inl err \<Rightarrow> False | Inr t \<Rightarrow> True)"

definition in_window :: "datetime \<Rightarrow> datetime \<Rightarrow> entry \<Rightarrow> bool" where
  "in_window start end e =
     (case strptime (e_timestamp e) of
        Inl err \<Rightarrow> False
      | Inr t \<Rightarrow> datetime_le start t \<and> datetime_le t end)"

text \<open>An entry is not after \<open>now\<close> when its parsed timestamp is at most \<open>now\<close>.\<close>

definition not_after :: "datetime \<Rightarrow> entry \<Rightarrow> bool" where
  "not_after now e =
     (case strptime (e_timestamp e) of Inl err \<Rightarrow> False | Inr t \<Rightarrow> datetime_le t now)"

text \<open>The points of a list of entries: each entry's score with its parsed time.\<close>

definition points :: "entry list \<Rightarrow> (int \<times> datetime) list" where
  "points entries =
     concat (map (\<lambda>e. case strptime (e_timestamp e) of
                          Inl err \<Rightarrow> []
                        | Inr t \<Rightarrow> [(e_score e, t)]) entries)"

section \<open>Invariants of the stored rows\<close>

text \<open>The stored label of every row is what the classifier of its table gives for its score.\<close>

definition labels_consistent :: "database \<Rightarrow> bool" where
  "labels_consistent db =
     (list_all (\<lambda>e. e_level e = get_depression_level (e_score e)) (checklist_entries db) \<and>
      list_all (\<lambda>e. e_level e = get_anxiety_level (e_score e)) (gad7_entries db))"

text \<open>Every stored timestamp has the fixed layout and is accepted by the parser.\<close>

definition timestamps_well_formed :: "database \<Rightarrow> bool" where
  "timestamps_well_formed db =
     list_all (\<lambda>e. timestamp_format (e_timestamp e) \<and> parses e)
       (checklist_entries db @ gad7_entries db)"

text \<open>A listing is newest first when the parsed times never increase along it.\<close>

definition later_or_equal :: "entry \<Rightarrow> entry \<Rightarrow> bool" where
  "later_or_equal a b =
     (case strptime (e_timestamp a) of
        Inl err \<Rightarrow> False
      | Inr ta \<Rightarrow> (case strptime (e_timestamp b) of
                     Inl err \<Rightarrow> False
                   | Inr tb \<Rightarrow> datetime_le tb ta))"

definition newest_first :: "entry list \<Rightarrow> bool" where
  "newest_first entries = sorted_wrt later_or_equal entries"

section \<open>Example data\<close>

text \<open>Concrete clock readings, a window and a small history, used to instantiate the theorems.\<close>

definition clock_a :: datetime where
  "clock_a = \<lparr>year = 2023, month = 12, day = 31, hour = 23, minute = 59, second = 59,
              microsecond = 250000\<rparr>"

definition clock_b :: datetime where
  "clock_b = \<lparr>year = 2024, month = 3, day = 5, hour = 9, minute = 7, second = 1,
              microsecond = 123456\<rparr>"

definition clock_c :: datetime where
  "clock_c = \<lparr>year = 2024, month = 3, day = 5, hour = 9, minute = 7, second = 2,
              microsecond = 0\<rparr>"

definition example_calls :: "save_call list" where
  "example_calls = [Save_score clock_b 30, Save_gad7_score clock_b 10, Save_score clock_a 7]"

definition example_db :: database where
  "example_db = run_saves example_calls fresh_db"

definition example_tracker :: tracker where
  "example_tracker =
     \<lparr>store = fresh_db,
      burns_responses = [2, 1, 0, 2, 1, 3, 2, 1, 0, 2, 1, 0, 2, 1, 3, 2, 1, 0, 2, 1, 0, 2, 1, 0],
      gad7_responses = [1, 2, 3, 2, 1, 0, 4],
      burns_result_label = [], gad7_result_label = [],
      graph_select = ''Depression (Burns)'', time_filter = ''All Time'',
      date_from = clock_a, date_to = clock_c\<rparr>"

section \<open>Properties of the scorers and classifiers\<close>

lemma py_sum_ints: "py_sum acc (map PInt rs) = Inr (acc + sum_list rs)"
  by (induction rs arbitrary: acc) simp_all

lemma list_all_in_range_ints:
  "list_all (int_in_range hi) (map PInt rs) \<longleftrightarrow> (\<forall>x\<in>set rs. 0 \<le> x \<and> x \<le> hi)"
  by (induction rs) (simp_all add: int_in_range_def)

lemma sum_list_bounds:
  fixes rs :: "int list"
  shows "\<forall>x\<in>set rs. 0 \<le> x \<and> x \<le> hi \<Longrightarrow> 0 \<le> sum_list rs \<and> sum_list rs \<le> hi * int (length rs)"
  by (induction rs) (auto simp: algebra_simps)

text \<open>
  Claim C1. On a response vector of exactly 25 integers, each in 0..4, the depression scorer
  returns their exact sum, and the sum lies in 0..100; on exactly 7 integers, each in 0..3,
  the anxiety scorer returns their exact sum, and the sum lies in 0..21. Both scorers are
  functions of the response vector alone: they take no state and return none.
\<close>

theorem scorers_return_exact_sum:
  "(length rs = 25 \<and> (\<forall>x\<in>set rs. 0 \<le> x \<and> x \<le> 4) \<longrightarrow>
      calculate_burns_score (map PInt rs) = Inr (sum_list rs) \<and>
      0 \<le> sum_list rs \<and> sum_list rs \<le> 100) \<and>
   (length qs = 7 \<and> (\<forall>x\<in>set qs. 0 \<le> x \<and> x \<le> 3) \<longrightarrow>
      calculate_gad7_score (map PInt qs) = Inr (sum_list qs) \<and>
      0 \<le> sum_list qs \<and> sum_list qs \<le> 21)"
proof (intro conjI impI)
  assume a: "length rs = 25 \<and> (\<forall>x\<in>set rs. 0 \<le> x \<and> x \<le> 4)"
  then show "calculate_burns_score (map PInt rs) = Inr (sum_list rs)"
    by (simp add: calculate_burns_score_def list_all_in_range_ints py_sum_ints)
  from a sum_list_bounds [of rs 4] show "0 \<le> sum_list rs" "sum_list rs \<le> 100"
    by simp_all
next
  assume a: "length qs = 7 \<and> (\<forall>x\<in>set qs. 0 \<le> x \<and> x \<le> 3)"
  then show "calculate_gad7_score (map PInt qs) = Inr (sum_list qs)"
    by (simp add: calculate_gad7_score_def list_all_in_range_ints py_sum_ints)
  from a sum_list_bounds [of qs 3] show "0 \<le> sum_list qs" "sum_list qs \<le> 21"
    by simp_all
qed

theorem scorers_return_exact_sum_witness:
  "length [4, 4, 4, 4, 4, 4, 4, 4, 4, 4, 4, 4, 4, 4, 4, 4, 4, 4, 4, 4, 4, 4, 4, 4, 4 :: int] = 25 \<and>
   list_all (\<lambda>x. 0 \<le> x \<and> x \<le> 4)
     [4, 4, 4, 4, 4, 4, 4, 4, 4, 4, 4, 4, 4, 4, 4, 4, 4, 4, 4, 4, 4, 4, 4, 4, 4 :: int] \<and>
   calculate_burns_score
     (map PInt [4, 4, 4, 4, 4, 4, 4, 4, 4, 4, 4, 4, 4, 4, 4, 4, 4, 4, 4, 4, 4, 4, 4, 4, 4]) = Inr 100 \<and>
   length [1, 2, 3, 2, 1, 0, 1 :: int] = 7 \<and>
   list_all (\<lambda>x. 0 \<le> x \<and> x \<le> 3) [1, 2, 3, 2, 1, 0, 1 :: int] \<and>
   calculate_gad7_score (map PInt [1, 2, 3, 2, 1, 0, 1]) = Inr 10"
  using scorers_return_exact_sum
    [of "[4, 4, 4, 4, 4, 4, 4, 4, 4, 4, 4, 4, 4, 4, 4, 4, 4, 4, 4, 4, 4, 4, 4, 4, 4]"
        "[1, 2, 3, 2, 1, 0, 1]"]
  by simp

text \<open>
  Claim C2. For every integer score, the depression classifier returns the label of each band
  of the specification's table that contains the score; for a score in 0..100 exactly one band
  contains it (no gap, no overlap); score 5 is labelled "No Depression" and score 6
  "Normal but unhappy".
\<close>

theorem depression_bands_classification:
  "(\<forall>b\<in>set spec_depression_bands. in_band score b \<longrightarrow> get_depression_level score = band_label b) \<and>
   (0 \<le> score \<and> score \<le> 100 \<longrightarrow>
      (\<exists>b. bands_containing spec_depression_bands score = [b] \<and>
           get_depression_level score = band_label b)) \<and>
   get_depression_level 5 = ''No Depression'' \<and>
   get_depression_level 6 = ''Normal but unhappy''"
  by (auto simp: get_depression_level_def spec_depression_bands_def bands_containing_def)

theorem depression_bands_classification_witness:
  "in_band 28 (26, 50, ''Moderate depression'') \<and> (0::int) \<le> 28 \<and> (28::int) \<le> 100 \<and>
   bands_containing spec_depression_bands 28 = [(26, 50, ''Moderate depression'')] \<and>
   get_depression_level 28 = ''Moderate depression''"
  using depression_bands_classification [of 28]
  by (simp add: spec_depression_bands_def bands_containing_def)

text \<open>
  Claim C3. For every integer score in 0..21 the anxiety classifier returns the label of the one
  band of the specification's table that contains the score. For a score outside all bands
  (negative, or above 21 for anxiety and above 100 for depression) the classifiers return the
  label "Invalid score"; they are total functions from the integers to labels, with no error
  branch.
\<close>

theorem anxiety_bands_and_sentinel:
  "(\<forall>b\<in>set spec_anxiety_bands. in_band score b \<longrightarrow> get_anxiety_level score = band_label b) \<and>
   (0 \<le> score \<and> score \<le> 21 \<longrightarrow>
      (\<exists>b. bands_containing spec_anxiety_bands score = [b] \<and>
           get_anxiety_level score = band_label b)) \<and>
   (score < 0 \<or> 21 < score \<longrightarrow>
      bands_containing spec_anxiety_bands score = [] \<and> get_anxiety_level score = ''Invalid score'') \<and>
   (score < 0 \<or> 100 < score \<longrightarrow>
      bands_containing spec_depression_bands score = [] \<and>
      get_depression_level score = ''Invalid score'')"
  by (auto simp: get_anxiety_level_def spec_anxiety_bands_def bands_containing_def
      get_depression_level_def spec_depression_bands_def)

theorem anxiety_bands_and_sentinel_witness:
  "in_band 12 (10, 14, ''Moderate anxiety'') \<and> (0::int) \<le> 12 \<and> (12::int) \<le> 21 \<and>
   bands_containing spec_anxiety_bands 12 = [(10, 14, ''Moderate anxiety'')] \<and>
   get_anxiety_level 12 = ''Moderate anxiety'' \<and>
   (21::int) < 22 \<and> get_anxiety_level 22 = ''Invalid score'' \<and>
   (-1::int) < 0 \<and> get_depression_level (-1) = ''Invalid score'' \<and>
   (100::int) < 101 \<and> get_depression_level 101 = ''Invalid score''"
  using anxiety_bands_and_sentinel [of 12] anxiety_bands_and_sentinel [of 22]
    anxiety_bands_and_sentinel [of "-1"] anxiety_bands_and_sentinel [of 101]
  by (simp add: spec_anxiety_bands_def bands_containing_def)

text \<open>
  Claim C5, as stated: the sample vector scores 28. The scorer does not return 28 on it.
\<close>

theorem sample_vector_scores_28_counterexample:
  "calculate_burns_score sample_burns_responses \<noteq> Inr 28"
  by (simp add: calculate_burns_score_def sample_burns_responses_def int_in_range_def)

text \<open>
  Claim C5, amended. The depression scorer returns 30 on the sample vector, and 30 is
  classified as "Moderate depression".
\<close>

theorem sample_vector_scores_30:
  "calculate_burns_score sample_burns_responses = Inr 30 \<and>
   get_depression_level 30 = ''Moderate depression''"
  by (simp add: calculate_burns_score_def sample_burns_responses_def int_in_range_def
      get_depression_level_def)

section \<open>Validation\<close>

lemma py_sum_valid:
  "list_all (int_in_range hi) rs \<Longrightarrow>
   \<exists>vs. map int_of rs = map Some vs \<and> py_sum acc rs = Inr (acc + sum_list vs)"
proof (induction rs arbitrary: acc)
  case Nil
  then show ?case by simp
next
  case (Cons x rs)
  from Cons.prems obtain n where n: "int_of x = Some n"
    by (auto simp: int_in_range_def split: option.splits)
  from Cons.prems have "list_all (int_in_range hi) rs" by simp
  from Cons.IH [OF this, of "acc + n"] obtain vs where
    vs: "map int_of rs = map Some vs" "py_sum (acc + n) rs = Inr (acc + n + sum_list vs)"
    by blast
  show ?case
  proof (intro exI conjI)
    show "map int_of (x # rs) = map Some (n # vs)" using n vs by simp
    show "py_sum acc (x # rs) = Inr (acc + sum_list (n # vs))" using n vs by simp
  qed
qed

lemma int_in_range_iff:
  "int_in_range hi x \<longleftrightarrow> (\<exists>n. int_of x = Some n \<and> 0 \<le> n \<and> n \<le> hi)"
  by (auto simp: int_in_range_def split: option.splits)

lemma burns_score_cases:
  "calculate_burns_score rs =
     (if length rs \<noteq> 25 then Inl (ValueError ''Must provide exactly 25 responses'')
      else if \<exists>x\<in>set rs. \<not> int_in_range 4 x
        then Inl (ValueError ''All responses must be integers between 0 and 4'')
      else py_sum 0 rs)"
  by (simp add: calculate_burns_score_def list_all_iff)

lemma gad7_score_cases:
  "calculate_gad7_score rs =
     (if length rs \<noteq> 7 then Inl (ValueError ''Must provide exactly 7 responses'')
      else if \<exists>x\<in>set rs. \<not> int_in_range 3 x
        then Inl (ValueError ''All responses must be integers between 0 and 3'')
      else py_sum 0 rs)"
  by (simp add: calculate_gad7_score_def list_all_iff)

lemma burns_score_raises_iff:
  "(\<exists>msg. calculate_burns_score rs = Inl (ValueError msg)) \<longleftrightarrow>
     (length rs \<noteq> 25 \<or> (\<exists>x\<in>set rs. \<not> (\<exists>n. int_of x = Some n \<and> 0 \<le> n \<and> n \<le> 4)))"
proof (cases "length rs = 25 \<and> list_all (int_in_range 4) rs")
  case True
  with py_sum_valid [of 4 rs 0] obtain vs where "py_sum 0 rs = Inr (0 + sum_list vs)" by blast
  with True show ?thesis
    by (auto simp: burns_score_cases list_all_iff int_in_range_iff)
next
  case False
  then show ?thesis
    by (auto simp: burns_score_cases list_all_iff int_in_range_iff)
qed

lemma gad7_score_raises_iff:
  "(\<exists>msg. calculate_gad7_score rs = Inl (ValueError msg)) \<longleftrightarrow>
     (length rs \<noteq> 7 \<or> (\<exists>x\<in>set rs. \<not> (\<exists>n. int_of x = Some n \<and> 0 \<le> n \<and> n \<le> 3)))"
proof (cases "length rs = 7 \<and> list_all (int_in_range 3) rs")
  case True
  with py_sum_valid [of 3 rs 0] obtain vs where "py_sum 0 rs = Inr (0 + sum_list vs)" by blast
  with True show ?thesis
    by (auto simp: gad7_score_cases list_all_iff int_in_range_iff)
next
  case False
  then show ?thesis
    by (auto simp: gad7_score_cases list_all_iff int_in_range_iff)
qed

lemma burns_score_only_value_error:
  "calculate_burns_score rs = Inl e \<Longrightarrow> \<exists>msg. e = ValueError msg"
proof (cases "length rs = 25 \<and> list_all (int_in_range 4) rs")
  case True
  assume e: "calculate_burns_score rs = Inl e"
  from True py_sum_valid [of 4 rs 0] obtain vs where "py_sum 0 rs = Inr (0 + sum_list vs)" by blast
  with True e show ?thesis by (simp add: calculate_burns_score_def)
next
  case False
  assume "calculate_burns_score rs = Inl e"
  with False show ?thesis by (auto simp: calculate_burns_score_def split: if_splits)
qed

lemma gad7_score_only_value_error:
  "calculate_gad7_score rs = Inl e \<Longrightarrow> \<exists>msg. e = ValueError msg"
proof (cases "length rs = 7 \<and> list_all (int_in_range 3) rs")
  case True
  assume e: "calculate_gad7_score rs = Inl e"
  from True py_sum_valid [of 3 rs 0] obtain vs where "py_sum 0 rs = Inr (0 + sum_list vs)" by blast
  with True e show ?thesis by (simp add: calculate_gad7_score_def)
next
  case False
  assume "calculate_gad7_score rs = Inl e"
  with False show ?thesis by (auto simp: calculate_gad7_score_def split: if_splits)
qed

lemma burns_score_exact:
  "calculate_burns_score rs = Inr res \<Longrightarrow>
   \<exists>vs. map int_of rs = map Some vs \<and> res = sum_list vs"
proof -
  assume r: "calculate_burns_score rs = Inr res"
  then have v: "list_all (int_in_range 4) rs"
    by (auto simp: calculate_burns_score_def split: if_splits)
  from py_sum_valid [OF v, of 0] r v show ?thesis
    by (auto simp: calculate_burns_score_def split: if_splits)
qed

lemma gad7_score_exact:
  "calculate_gad7_score rs = Inr res \<Longrightarrow>
   \<exists>vs. map int_of rs = map Some vs \<and> res = sum_list vs"
proof -
  assume r: "calculate_gad7_score rs = Inr res"
  then have v: "list_all (int_in_range 3) rs"
    by (auto simp: calculate_gad7_score_def split: if_splits)
  from py_sum_valid [OF v, of 0] r v show ?thesis
    by (auto simp: calculate_gad7_score_def split: if_splits)
qed

text \<open>
  Claim C4. The depression scorer raises its validation error (a \<^verbatim>\<open>ValueError\<close>) exactly when
  the response vector does not have 25 elements or some element is not an integer in 0..4,
  and the anxiety scorer likewise with 7 elements in 0..3. They raise nothing else, and a
  returned score is the sum of the elements as given (nothing is clamped or cut off). When
  the scorer raises inside a submit handler, the handler ends with that exception and the
  window, its database included, is as before: the save is not reached.
\<close>

theorem validation_error_iff_invalid:
  "((\<exists>msg. calculate_burns_score rs = Inl (ValueError msg)) \<longleftrightarrow>
      (length rs \<noteq> 25 \<or> (\<exists>x\<in>set rs. \<not> (\<exists>n. int_of x = Some n \<and> 0 \<le> n \<and> n \<le> 4)))) \<and>
   ((\<exists>msg. calculate_gad7_score rs = Inl (ValueError msg)) \<longleftrightarrow>
      (length rs \<noteq> 7 \<or> (\<exists>x\<in>set rs. \<not> (\<exists>n. int_of x = Some n \<and> 0 \<le> n \<and> n \<le> 3)))) \<and>
   (\<forall>e. calculate_burns_score rs = Inl e \<or> calculate_gad7_score rs = Inl e \<longrightarrow>
      (\<exists>msg. e = ValueError msg)) \<and>
   (\<forall>res. calculate_burns_score rs = Inr res \<or> calculate_gad7_score rs = Inr res \<longrightarrow>
      (\<exists>vs. map int_of rs = map Some vs \<and> res = sum_list vs)) \<and>
   (\<forall>e. calculate_burns_score (map PInt (burns_responses self)) = Inl e \<longrightarrow>
      calculate_burns_result now self = (Inl e, self)) \<and>
   (\<forall>e. calculate_gad7_score (map PInt (gad7_responses self)) = Inl e \<longrightarrow>
      calculate_gad7_result now self = (Inl e, self))"
proof (intro conjI allI impI)
  show "(\<exists>msg. calculate_burns_score rs = Inl (ValueError msg)) \<longleftrightarrow>
      (length rs \<noteq> 25 \<or> (\<exists>x\<in>set rs. \<not> (\<exists>n. int_of x = Some n \<and> 0 \<le> n \<and> n \<le> 4)))"
    by (rule burns_score_raises_iff)
  show "(\<exists>msg. calculate_gad7_score rs = Inl (ValueError msg)) \<longleftrightarrow>
      (length rs \<noteq> 7 \<or> (\<exists>x\<in>set rs. \<not> (\<exists>n. int_of x = Some n \<and> 0 \<le> n \<and> n \<le> 3)))"
    by (rule gad7_score_raises_iff)
next
  fix e assume "calculate_burns_score rs = Inl e \<or> calculate_gad7_score rs = Inl e"
  then show "\<exists>msg. e = ValueError msg"
    using burns_score_only_value_error gad7_score_only_value_error by blast
next
  fix res assume "calculate_burns_score rs = Inr res \<or> calculate_gad7_score rs = Inr res"
  then show "\<exists>vs. map int_of rs = map Some vs \<and> res = sum_list vs"
    using burns_score_exact gad7_score_exact by blast
next
  fix e assume "calculate_burns_score (map PInt (burns_responses self)) = Inl e"
  then show "calculate_burns_result now self = (Inl e, self)"
    by (simp add: calculate_burns_result_def)
next
  fix e assume "calculate_gad7_score (map PInt (gad7_responses self)) = Inl e"
  then show "calculate_gad7_result now self = (Inl e, self)"
    by (simp add: calculate_gad7_result_def)
qed

theorem validation_error_iff_invalid_witness:
  "length (PInt 5 # sample_gad7_responses) \<noteq> 25 \<and>
   calculate_burns_score (PInt 5 # sample_gad7_responses) =
     Inl (ValueError ''Must provide exactly 25 responses'') \<and>
   calculate_gad7_score (PInt 5 # sample_gad7_responses) =
     Inl (ValueError ''Must provide exactly 7 responses'') \<and>
   calculate_burns_score sample_burns_responses = Inr 30 \<and>
   calculate_gad7_score (PStr ''3'' # tl sample_gad7_responses) =
     Inl (ValueError ''All responses must be integers between 0 and 3'') \<and>
   calculate_burns_score (map PInt (burns_responses example_tracker)) =
     Inl (ValueError ''Must provide exactly 25 responses'') \<and>
   calculate_burns_result clock_b example_tracker =
     (Inl (ValueError ''Must provide exactly 25 responses''), example_tracker) \<and>
   calculate_gad7_score (map PInt (gad7_responses example_tracker)) =
     Inl (ValueError ''All responses must be integers between 0 and 3'') \<and>
   calculate_gad7_result clock_b example_tracker =
     (Inl (ValueError ''All responses must be integers between 0 and 3''), example_tracker)"
  using validation_error_iff_invalid [of "PInt 5 # sample_gad7_responses" example_tracker clock_b]
    validation_error_iff_invalid [of sample_burns_responses example_tracker clock_b]
    validation_error_iff_invalid [of "PStr ''3'' # tl sample_gad7_responses" example_tracker clock_b]
  by (simp add: calculate_burns_score_def calculate_gad7_score_def sample_gad7_responses_def
      sample_burns_responses_def example_tracker_def int_in_range_def)

section \<open>Repository: saving and listing\<close>

lemma insort_key_split:
  "\<exists>ys zs. xs = ys @ zs \<and> insort_key f x xs = ys @ x # zs"
proof (induction xs)
  case Nil
  then show ?case by simp
next
  case (Cons a xs)
  then obtain ys zs where s: "xs = ys @ zs" "insort_key f x xs = ys @ x # zs" by blast
  show ?case
  proof (cases "f x \<le> f a")
    case True
    then have "a # xs = [] @ (a # xs) \<and> insort_key f x (a # xs) = [] @ x # (a # xs)" by simp
    then show ?thesis by blast
  next
    case False
    with s have "a # xs = (a # ys) @ zs \<and> insort_key f x (a # xs) = (a # ys) @ x # zs" by simp
    then show ?thesis by blast
  qed
qed

lemma order_by_timestamp_desc_snoc:
  "\<exists>pre post. order_by_timestamp_desc rows = pre @ post \<and>
     order_by_timestamp_desc (rows @ [new]) = pre @ new # post"
proof -
  from insort_key_split [of "sort_key e_timestamp (rev rows)" e_timestamp new]
  obtain ys zs where s: "sort_key e_timestamp (rev rows) = ys @ zs"
      "insort_key e_timestamp new (sort_key e_timestamp (rev rows)) = ys @ new # zs"
    by (elim exE conjE)
  have "order_by_timestamp_desc rows = rev zs @ rev ys"
    using s(1) by (simp add: order_by_timestamp_desc_def)
  moreover have "order_by_timestamp_desc (rows @ [new]) = rev zs @ new # rev ys"
    using s(2) by (simp add: order_by_timestamp_desc_def)
  ultimately show ?thesis by blast
qed

lemma set_order_by_timestamp_desc [simp]:
  "set (order_by_timestamp_desc rows) = set rows"
  by (simp add: order_by_timestamp_desc_def)

lemma fold_max_ge_start: "(seq::nat) \<le> fold max ns seq"
proof (induction ns arbitrary: seq)
  case Nil
  then show ?case by simp
next
  case (Cons n ns)
  have "seq \<le> max n seq" by simp
  also have "\<dots> \<le> fold max ns (max n seq)" by (rule Cons.IH)
  finally show ?case by simp
qed

lemma fold_max_ge_elem: "(n::nat) \<in> set ns \<Longrightarrow> n \<le> fold max ns seq"
proof (induction ns arbitrary: seq)
  case Nil
  then show ?case by simp
next
  case (Cons m ns)
  show ?case
  proof (cases "n = m")
    case True
    have "n \<le> max m seq" using True by simp
    also have "\<dots> \<le> fold max ns (max m seq)" by (rule fold_max_ge_start)
    finally show ?thesis by simp
  next
    case False
    with Cons.prems have "n \<in> set ns" by simp
    from Cons.IH [OF this] show ?thesis by simp
  qed
qed

lemma next_rowid_greater: "e \<in> set rows \<Longrightarrow> e_id e < next_rowid seq rows"
  using fold_max_ge_elem [of "e_id e" "map e_id rows" seq]
  by (simp add: next_rowid_def less_Suc_eq_le)

lemma save_score_result:
  "sqlite_int64 score \<Longrightarrow>
   save_score now score db =
     (Inr (next_rowid (checklist_seq db) (checklist_entries db)),
      db\<lparr>checklist_entries := checklist_entries db @
            [\<lparr>e_id = next_rowid (checklist_seq db) (checklist_entries db), e_score = score,
              e_level = get_depression_level score, e_timestamp = strftime now\<rparr>],
          checklist_seq := next_rowid (checklist_seq db) (checklist_entries db)\<rparr>)"
  by (simp add: save_score_def Let_def)

lemma save_gad7_score_result:
  "sqlite_int64 score \<Longrightarrow>
   save_gad7_score now score db =
     (Inr (next_rowid (gad7_seq db) (gad7_entries db)),
      db\<lparr>gad7_entries := gad7_entries db @
            [\<lparr>e_id = next_rowid (gad7_seq db) (gad7_entries db), e_score = score,
              e_level = get_anxiety_level score, e_timestamp = strftime now\<rparr>],
          gad7_seq := next_rowid (gad7_seq db) (gad7_entries db)\<rparr>)"
  by (simp add: save_gad7_score_def Let_def)

lemma save_score_overflow:
  "\<not> sqlite_int64 score \<Longrightarrow>
   save_score now score db =
     (Inl (OverflowError ''Python int too large to convert to SQLite INTEGER''), db)"
  by (simp add: save_score_def)

lemma save_gad7_score_overflow:
  "\<not> sqlite_int64 score \<Longrightarrow>
   save_gad7_score now score db =
     (Inl (OverflowError ''Python int too large to convert to SQLite INTEGER''), db)"
  by (simp add: save_gad7_score_def)

lemma save_score_roundtrip:
  assumes "sqlite_int64 score"
  shows "\<exists>new db' pre post.
           save_score now score db = (Inr (e_id new), db') \<and>
           e_score new = score \<and> e_level new = get_depression_level score \<and>
           get_all_entries db = pre @ post \<and> get_all_entries db' = pre @ new # post \<and>
           (\<forall>e\<in>set (get_all_entries db). e_id e < e_id new) \<and>
           get_all_gad7_entries db' = get_all_gad7_entries db"
proof -
  let ?id = "next_rowid (checklist_seq db) (checklist_entries db)"
  let ?new = "\<lparr>e_id = ?id, e_score = score, e_level = get_depression_level score,
               e_timestamp = strftime now\<rparr>"
  let ?db' = "db\<lparr>checklist_entries := checklist_entries db @ [?new], checklist_seq := ?id\<rparr>"
  from order_by_timestamp_desc_snoc [of "checklist_entries db" ?new]
  obtain pre post where pp: "order_by_timestamp_desc (checklist_entries db) = pre @ post"
      "order_by_timestamp_desc (checklist_entries db @ [?new]) = pre @ ?new # post"
    by (elim exE conjE)
  have 1: "save_score now score db = (Inr (e_id ?new), ?db')"
    using save_score_result [OF assms] by simp
  have 2: "get_all_entries db = pre @ post" using pp(1) by (simp add: get_all_entries_def)
  have 3: "get_all_entries ?db' = pre @ ?new # post" using pp(2) by (simp add: get_all_entries_def)
  have 4: "\<forall>e\<in>set (get_all_entries db). e_id e < e_id ?new"
    by (simp add: get_all_entries_def next_rowid_greater)
  have 5: "get_all_gad7_entries ?db' = get_all_gad7_entries db"
    by (simp add: get_all_gad7_entries_def)
  show ?thesis
  proof (intro exI conjI)
    show "save_score now score db = (Inr (e_id ?new), ?db')" by (rule 1)
    show "e_score ?new = score" by simp
    show "e_level ?new = get_depression_level score" by simp
    show "get_all_entries db = pre @ post" by (rule 2)
    show "get_all_entries ?db' = pre @ ?new # post" by (rule 3)
    show "\<forall>e\<in>set (get_all_entries db). e_id e < e_id ?new" by (rule 4)
    show "get_all_gad7_entries ?db' = get_all_gad7_entries db" by (rule 5)
  qed
qed

lemma save_gad7_score_roundtrip:
  assumes "sqlite_int64 score"
  shows "\<exists>new db' pre post.
           save_gad7_score now score db = (Inr (e_id new), db') \<and>
           e_score new = score \<and> e_level new = get_anxiety_level score \<and>
           get_all_gad7_entries db = pre @ post \<and> get_all_gad7_entries db' = pre @ new # post \<and>
           (\<forall>e\<in>set (get_all_gad7_entries db). e_id e < e_id new) \<and>
           get_all_entries db' = get_all_entries db"
proof -
  let ?id = "next_rowid (gad7_seq db) (gad7_entries db)"
  let ?new = "\<lparr>e_id = ?id, e_score = score, e_level = get_anxiety_level score,
               e_timestamp = strftime now\<rparr>"
  let ?db' = "db\<lparr>gad7_entries := gad7_entries db @ [?new], gad7_seq := ?id\<rparr>"
  from order_by_timestamp_desc_snoc [of "gad7_entries db" ?new]
  obtain pre post where pp: "order_by_timestamp_desc (gad7_entries db) = pre @ post"
      "order_by_timestamp_desc (gad7_entries db @ [?new]) = pre @ ?new # post"
    by (elim exE conjE)
  have 1: "save_gad7_score now score db = (Inr (e_id ?new), ?db')"
    using save_gad7_score_result [OF assms] by simp
  have 2: "get_all_gad7_entries db = pre @ post" using pp(1) by (simp add: get_all_gad7_entries_def)
  have 3: "get_all_gad7_entries ?db' = pre @ ?new # post"
    using pp(2) by (simp add: get_all_gad7_entries_def)
  have 4: "\<forall>e\<in>set (get_all_gad7_entries db). e_id e < e_id ?new"
    by (simp add: get_all_gad7_entries_def next_rowid_greater)
  have 5: "get_all_entries ?db' = get_all_entries db"
    by (simp add: get_all_entries_def)
  show ?thesis
  proof (intro exI conjI)
    show "save_gad7_score now score db = (Inr (e_id ?new), ?db')" by (rule 1)
    show "e_score ?new = score" by simp
    show "e_level ?new = get_anxiety_level score" by simp
    show "get_all_gad7_entries db = pre @ post" by (rule 2)
    show "get_all_gad7_entries ?db' = pre @ ?new # post" by (rule 3)
    show "\<forall>e\<in>set (get_all_gad7_entries db). e_id e < e_id ?new" by (rule 4)
    show "get_all_entries ?db' = get_all_entries db" by (rule 5)
  qed
qed

text \<open>
  Claim C8. For every prior state of the repository and every score the table can hold (a
  signed 64-bit integer): the save returns an identifier, and the listing taken right after
  it is the prior listing with exactly one record put in, the prior records keeping their
  order. That record has the saved score, the classifier's label for that score and the
  returned identifier, which is greater than every identifier listed before. The listing of
  the other table does not change. The same holds for the anxiety table.
\<close>

theorem save_then_list_adds_one_record:
  "sqlite_int64 score \<Longrightarrow>
   (\<exists>new db' pre post.
      save_score now score db = (Inr (e_id new), db') \<and>
      e_score new = score \<and> e_level new = get_depression_level score \<and>
      get_all_entries db = pre @ post \<and> get_all_entries db' = pre @ new # post \<and>
      (\<forall>e\<in>set (get_all_entries db). e_id e < e_id new) \<and>
      get_all_gad7_entries db' = get_all_gad7_entries db) \<and>
   (\<exists>new db' pre post.
      save_gad7_score now score db = (Inr (e_id new), db') \<and>
      e_score new = score \<and> e_level new = get_anxiety_level score \<and>
      get_all_gad7_entries db = pre @ post \<and> get_all_gad7_entries db' = pre @ new # post \<and>
      (\<forall>e\<in>set (get_all_gad7_entries db). e_id e < e_id new) \<and>
      get_all_entries db' = get_all_entries db)"
  by (intro conjI save_score_roundtrip save_gad7_score_roundtrip)



lemma digit_char_literals:
  "digit_char 0 = CHR ''0''" "digit_char (Suc 0) = CHR ''1''" "digit_char 2 = CHR ''2''"
  "digit_char 3 = CHR ''3''" "digit_char 4 = CHR ''4''" "digit_char 5 = CHR ''5''"
  "digit_char 6 = CHR ''6''" "digit_char 7 = CHR ''7''" "digit_char 8 = CHR ''8''"
  "digit_char 9 = CHR ''9''"
  by (simp_all add: digit_char_def char_of_eq_iff)

lemma zero_pad_2: "zero_pad 2 n = [digit_char (n div 10 mod 10), digit_char (n mod 10)]"
  unfolding numeral_2_eq_2 by simp

lemma zero_pad_4:
  "zero_pad 4 n =
     [digit_char (n div 1000 mod 10), digit_char (n div 100 mod 10),
      digit_char (n div 10 mod 10), digit_char (n mod 10)]"
proof -
  have four: "(4::nat) = Suc (Suc (Suc (Suc 0)))" by simp
  show ?thesis unfolding four by (simp add: div_mult2_eq [symmetric])
qed

lemma timestamp_text_digits:
  "timestamp_text d =
     [digit_char (year d div 1000 mod 10), digit_char (year d div 100 mod 10),
      digit_char (year d div 10 mod 10), digit_char (year d mod 10), CHR ''-'',
      digit_char (month d div 10 mod 10), digit_char (month d mod 10), CHR ''-'',
      digit_char (day d div 10 mod 10), digit_char (day d mod 10), CHR '' '',
      digit_char (hour d div 10 mod 10), digit_char (hour d mod 10), CHR '':'',
      digit_char (minute d div 10 mod 10), digit_char (minute d mod 10), CHR '':'',
      digit_char (second d div 10 mod 10), digit_char (second d mod 10)]"
  by (simp add: timestamp_text_def zero_pad_4 zero_pad_2)

lemma str_nat_four_digits:
  assumes "1000 \<le> n" "n \<le> 9999"
  shows "str_nat n = zero_pad 4 n"
proof -
  have h: "n div 10 div 10 = n div 100" "n div 100 div 10 = n div 1000"
    by (simp_all add: div_mult2_eq [symmetric])
  have b: "\<not> n < 10" "\<not> n div 10 < 10" "\<not> n div 100 < 10" "n div 1000 < 10"
    using assms by simp_all
  have s3: "str_nat (n div 1000) = [digit_char (n div 1000 mod 10)]"
    using b(4) by (subst str_nat.simps) simp
  have s2: "str_nat (n div 100) = str_nat (n div 1000) @ [digit_char (n div 100 mod 10)]"
    using b(3) by (subst str_nat.simps) (simp add: h)
  have s1: "str_nat (n div 10) = str_nat (n div 100) @ [digit_char (n div 10 mod 10)]"
    using b(2) by (subst str_nat.simps) (simp add: h)
  have s0: "str_nat n = str_nat (n div 10) @ [digit_char (n mod 10)]"
    using b(1) by (subst str_nat.simps) simp
  show ?thesis unfolding s0 s1 s2 s3 zero_pad_4 by simp
qed

lemma strftime_wall_clock:
  assumes "wall_clock d"
  shows "strftime d = timestamp_text d"
proof -
  from assms have "1000 \<le> year d" "year d \<le> 9999"
    by (simp_all add: wall_clock_def valid_datetime_def)
  then have "str_nat (year d) = zero_pad 4 (year d)" by (rule str_nat_four_digits)
  then show ?thesis unfolding strftime_def timestamp_text_def by (simp only:)
qed

lemma wall_clocks: "wall_clock clock_a" "wall_clock clock_b" "wall_clock clock_c"
  by (simp_all add: wall_clock_def valid_datetime_def clock_a_def clock_b_def clock_c_def
      days_in_month_def is_leap_def)

lemma strftime_clock_a: "strftime clock_a = ''2023-12-31 23:59:59''"
  unfolding strftime_wall_clock [OF wall_clocks(1)]
  by (simp add: timestamp_text_digits clock_a_def digit_char_literals)

lemma strftime_clock_b: "strftime clock_b = ''2024-03-05 09:07:01''"
  unfolding strftime_wall_clock [OF wall_clocks(2)]
  by (simp add: timestamp_text_digits clock_b_def digit_char_literals)

lemma strftime_clock_c: "strftime clock_c = ''2024-03-05 09:07:02''"
  unfolding strftime_wall_clock [OF wall_clocks(3)]
  by (simp add: timestamp_text_digits clock_c_def digit_char_literals)


lemma example_db_value:
  "example_db =
     \<lparr>checklist_entries =
        [\<lparr>e_id = 1, e_score = 30, e_level = ''Moderate depression'',
          e_timestamp = ''2024-03-05 09:07:01''\<rparr>,
         \<lparr>e_id = 2, e_score = 7, e_level = ''Normal but unhappy'',
          e_timestamp = ''2023-12-31 23:59:59''\<rparr>],
      checklist_seq = 2,
      gad7_entries =
        [\<lparr>e_id = 1, e_score = 10, e_level = ''Moderate anxiety'',
          e_timestamp = ''2024-03-05 09:07:01''\<rparr>],
      gad7_seq = 1\<rparr>"
  by (simp add: example_db_def example_calls_def save_score_def save_gad7_score_def
      sqlite_int64_def fresh_db_def next_rowid_def strftime_clock_a strftime_clock_b
      get_depression_level_def get_anxiety_level_def)

theorem save_then_list_adds_one_record_witness:
  "sqlite_int64 101 \<and>
   get_all_entries example_db =
     [\<lparr>e_id = 1, e_score = 30, e_level = ''Moderate depression'',
       e_timestamp = ''2024-03-05 09:07:01''\<rparr>,
      \<lparr>e_id = 2, e_score = 7, e_level = ''Normal but unhappy'',
       e_timestamp = ''2023-12-31 23:59:59''\<rparr>] \<and>
   fst (save_score clock_c 101 example_db) = Inr 3 \<and>
   get_all_entries (snd (save_score clock_c 101 example_db)) =
     [\<lparr>e_id = 3, e_score = 101, e_level = ''Invalid score'',
       e_timestamp = ''2024-03-05 09:07:02''\<rparr>,
      \<lparr>e_id = 1, e_score = 30, e_level = ''Moderate depression'',
       e_timestamp = ''2024-03-05 09:07:01''\<rparr>,
      \<lparr>e_id = 2, e_score = 7, e_level = ''Normal but unhappy'',
       e_timestamp = ''2023-12-31 23:59:59''\<rparr>] \<and>
   fst (save_gad7_score clock_a 4 example_db) = Inr 2 \<and>
   get_all_gad7_entries (snd (save_gad7_score clock_a 4 example_db)) =
     [\<lparr>e_id = 1, e_score = 10, e_level = ''Moderate anxiety'',
       e_timestamp = ''2024-03-05 09:07:01''\<rparr>,
      \<lparr>e_id = 2, e_score = 4, e_level = ''Minimal anxiety'',
       e_timestamp = ''2023-12-31 23:59:59''\<rparr>]"
  using save_then_list_adds_one_record [of 101 clock_c example_db]
  by (simp add: example_db_value save_score_def save_gad7_score_def sqlite_int64_def
      next_rowid_def strftime_clock_a strftime_clock_c get_depression_level_def
      get_anxiety_level_def get_all_entries_def get_all_gad7_entries_def
      order_by_timestamp_desc_def)

lemma labels_consistent_save_score:
  "labels_consistent db \<Longrightarrow> labels_consistent (snd (save_score now score db))"
  by (simp add: labels_consistent_def save_score_def Let_def)

lemma labels_consistent_save_gad7_score:
  "labels_consistent db \<Longrightarrow> labels_consistent (snd (save_gad7_score now score db))"
  by (simp add: labels_consistent_def save_gad7_score_def Let_def)

lemma labels_consistent_run_saves:
  "labels_consistent db \<Longrightarrow> labels_consistent (run_saves calls db)"
proof (induction calls arbitrary: db)
  case Nil
  then show ?case by simp
next
  case (Cons c calls)
  show ?case
  proof (cases c)
    case (Save_score t s)
    with Cons show ?thesis by (simp add: labels_consistent_save_score)
  next
    case (Save_gad7_score t s)
    with Cons show ?thesis by (simp add: labels_consistent_save_gad7_score)
  qed
qed

lemma labels_consistent_fresh_db: "labels_consistent fresh_db"
  by (simp add: labels_consistent_def fresh_db_def)

lemma invalid_depression_label:
  "score < 0 \<or> 100 < score \<Longrightarrow> get_depression_level score = ''Invalid score''"
  by (auto simp: get_depression_level_def)

lemma invalid_anxiety_label:
  "score < 0 \<or> 21 < score \<Longrightarrow> get_anxiety_level score = ''Invalid score''"
  by (auto simp: get_anxiety_level_def)

text \<open>
  Claim C9, as stated: the save operations accept any integer score. Saving the score
  \<open>2 ^ 63\<close> raises \<^verbatim>\<open>OverflowError\<close> and the table stays empty.
\<close>

theorem save_any_integer_counterexample:
  "fst (save_score clock_b 9223372036854775808 fresh_db) =
     Inl (OverflowError ''Python int too large to convert to SQLite INTEGER'') \<and>
   checklist_entries (snd (save_score clock_b 9223372036854775808 fresh_db)) = []"
  by (simp add: save_score_def sqlite_int64_def fresh_db_def)

text \<open>
  Claim C9, amended. In every database built by save calls, each row's label is the
  classifier's output for its score, and each save keeps it so. The save operations do not
  validate the score against the instrument's range: for any integer score that fits in a
  signed 64-bit \<^verbatim>\<open>INTEGER\<close> a row is appended with the classifier's label, which is
  "Invalid score" when the score is outside the instrument's range. A score beyond 64 bits
  raises \<^verbatim>\<open>OverflowError\<close> and leaves the database unchanged.
\<close>

theorem stored_label_is_classifier_output:
  "labels_consistent (run_saves calls fresh_db) \<and>
   (labels_consistent db \<longrightarrow>
      labels_consistent (snd (save_score now score db)) \<and>
      labels_consistent (snd (save_gad7_score now score db))) \<and>
   (sqlite_int64 score \<longrightarrow>
      (\<exists>new_id. save_score now score db =
         (Inr new_id,
          db\<lparr>checklist_entries := checklist_entries db @
                [\<lparr>e_id = new_id, e_score = score, e_level = get_depression_level score,
                  e_timestamp = strftime now\<rparr>],
              checklist_seq := new_id\<rparr>)) \<and>
      (\<exists>new_id. save_gad7_score now score db =
         (Inr new_id,
          db\<lparr>gad7_entries := gad7_entries db @
                [\<lparr>e_id = new_id, e_score = score, e_level = get_anxiety_level score,
                  e_timestamp = strftime now\<rparr>],
              gad7_seq := new_id\<rparr>))) \<and>
   (score < 0 \<or> 100 < score \<longrightarrow> get_depression_level score = ''Invalid score'') \<and>
   (score < 0 \<or> 21 < score \<longrightarrow> get_anxiety_level score = ''Invalid score'') \<and>
   (\<not> sqlite_int64 score \<longrightarrow>
      save_score now score db =
        (Inl (OverflowError ''Python int too large to convert to SQLite INTEGER''), db) \<and>
      save_gad7_score now score db =
        (Inl (OverflowError ''Python int too large to convert to SQLite INTEGER''), db))"
proof (intro conjI impI)
  show "labels_consistent (run_saves calls fresh_db)"
    by (rule labels_consistent_run_saves [OF labels_consistent_fresh_db])
  show "labels_consistent (snd (save_score now score db))" if "labels_consistent db"
    using that by (rule labels_consistent_save_score)
  show "labels_consistent (snd (save_gad7_score now score db))" if "labels_consistent db"
    using that by (rule labels_consistent_save_gad7_score)
  show "\<exists>new_id. save_score now score db =
         (Inr new_id,
          db\<lparr>checklist_entries := checklist_entries db @
                [\<lparr>e_id = new_id, e_score = score, e_level = get_depression_level score,
                  e_timestamp = strftime now\<rparr>],
              checklist_seq := new_id\<rparr>)" if "sqlite_int64 score"
    using save_score_result [OF that, of now db] by (intro exI)
  show "\<exists>new_id. save_gad7_score now score db =
         (Inr new_id,
          db\<lparr>gad7_entries := gad7_entries db @
                [\<lparr>e_id = new_id, e_score = score, e_level = get_anxiety_level score,
                  e_timestamp = strftime now\<rparr>],
              gad7_seq := new_id\<rparr>)" if "sqlite_int64 score"
    using save_gad7_score_result [OF that, of now db] by (intro exI)
  show "get_depression_level score = ''Invalid score''" if "score < 0 \<or> 100 < score"
    using that by (rule invalid_depression_label)
  show "get_anxiety_level score = ''Invalid score''" if "score < 0 \<or> 21 < score"
    using that by (rule invalid_anxiety_label)
  show "save_score now score db =
        (Inl (OverflowError ''Python int too large to convert to SQLite INTEGER''), db)"
    if "\<not> sqlite_int64 score"
    using that by (rule save_score_overflow)
  show "save_gad7_score now score db =
        (Inl (OverflowError ''Python int too large to convert to SQLite INTEGER''), db)"
    if "\<not> sqlite_int64 score"
    using that by (rule save_gad7_score_overflow)
qed

theorem stored_label_is_classifier_output_witness:
  "labels_consistent (run_saves example_calls fresh_db) \<and>
   labels_consistent example_db \<and>
   labels_consistent (snd (save_score clock_c 101 example_db)) \<and>
   labels_consistent (snd (save_gad7_score clock_c 101 example_db)) \<and>
   sqlite_int64 101 \<and> (100::int) < 101 \<and> (21::int) < 101 \<and>
   save_score clock_c 101 example_db =
     (Inr 3,
      example_db\<lparr>checklist_entries := checklist_entries example_db @
          [\<lparr>e_id = 3, e_score = 101, e_level = ''Invalid score'',
            e_timestamp = ''2024-03-05 09:07:02''\<rparr>],
        checklist_seq := 3\<rparr>) \<and>
   save_gad7_score clock_c 101 example_db =
     (Inr 2,
      example_db\<lparr>gad7_entries := gad7_entries example_db @
          [\<lparr>e_id = 2, e_score = 101, e_level = ''Invalid score'',
            e_timestamp = ''2024-03-05 09:07:02''\<rparr>],
        gad7_seq := 2\<rparr>) \<and>
   \<not> sqlite_int64 9223372036854775808 \<and>
   save_score clock_c 9223372036854775808 example_db =
     (Inl (OverflowError ''Python int too large to convert to SQLite INTEGER''), example_db)"
  using stored_label_is_classifier_output [of example_calls example_db clock_c 101]
    stored_label_is_classifier_output [of example_calls example_db clock_c 9223372036854775808]
  by (simp add: example_db_value save_score_def save_gad7_score_def sqlite_int64_def
      next_rowid_def strftime_clock_c get_depression_level_def get_anxiety_level_def
      labels_consistent_def example_db_def [symmetric])

section \<open>Timestamps and the time filter\<close>

subsection \<open>Digits\<close>

lemma of_char_digit_char: "n < 10 \<Longrightarrow> of_char (digit_char n) = 48 + n"
  by (simp add: digit_char_def)

lemma is_digit_digit_char: "n < 10 \<Longrightarrow> is_digit (digit_char n)"
  by (simp add: is_digit_def of_char_digit_char)

lemma digit_char_less_iff:
  "m < 10 \<Longrightarrow> n < 10 \<Longrightarrow> digit_char m < digit_char n \<longleftrightarrow> m < n"
  by (simp add: less_char_def of_char_digit_char)

lemma digit_char_eq_iff:
  "m < 10 \<Longrightarrow> n < 10 \<Longrightarrow> digit_char m = digit_char n \<longleftrightarrow> m = n"
proof
  assume b: "m < 10" "n < 10" and "digit_char m = digit_char n"
  then have "(of_char (digit_char m) :: nat) = of_char (digit_char n)" by simp
  with b show "m = n" by (simp add: of_char_digit_char)
qed simp

lemma digit_char_of_digit: "is_digit c \<Longrightarrow> digit_char (of_char c - 48) = c"
  by (simp add: is_digit_def digit_char_def)

lemma digit_value_less_10: "is_digit c \<Longrightarrow> (of_char c :: nat) - 48 < 10"
  by (auto simp: is_digit_def)

subsection \<open>Lexicographic order on blocks of equal length\<close>

lemma append_less_same_length:
  fixes a b :: "'a::linorder list"
  shows "length a = length b \<Longrightarrow> a @ x < b @ y \<longleftrightarrow> a < b \<or> a = b \<and> x < y"
  by (induction a b rule: list_induct2) auto

lemma append_le_same_length:
  fixes a b :: "'a::linorder list"
  shows "length a = length b \<Longrightarrow> a @ x \<le> b @ y \<longleftrightarrow> a < b \<or> a = b \<and> x \<le> y"
  by (induction a b rule: list_induct2) auto

lemma length_zero_pad [simp]: "length (zero_pad w n) = w"
  by (induction w arbitrary: n) simp_all

lemma nat_decimal_eq:
  "(m::nat) = n \<longleftrightarrow> m div 10 = n div 10 \<and> m mod 10 = n mod 10"
  by (metis div_mult_mod_eq)

lemma nat_decimal_less:
  "(m::nat) < n \<longleftrightarrow> m div 10 < n div 10 \<or> m div 10 = n div 10 \<and> m mod 10 < n mod 10"
proof -
  define q1 r1 q2 r2
    where "q1 = m div 10" and "r1 = m mod 10" and "q2 = n div 10" and "r2 = n mod 10"
  have m: "m = 10 * q1 + r1" "r1 < 10" by (simp_all add: q1_def r1_def)
  have n: "n = 10 * q2 + r2" "r2 < 10" by (simp_all add: q2_def r2_def)
  from m n have "m < n \<longleftrightarrow> q1 < q2 \<or> q1 = q2 \<and> r1 < r2" by auto
  then show ?thesis by (simp add: q1_def r1_def q2_def r2_def)
qed

lemma two_digits:
  fixes a b :: nat
  assumes "a < 10" "b < 10"
  shows "(10 * a + b) div 10 mod 10 = a" and "(10 * a + b) mod 10 = b"
    and "10 * a + b < 100"
  using assms by simp_all

lemma four_digits:
  fixes a b c d :: nat
  assumes "a < 10" "b < 10" "c < 10" "d < 10"
  shows "(10 * (10 * (10 * a + b) + c) + d) div 1000 mod 10 = a"
    and "(10 * (10 * (10 * a + b) + c) + d) div 100 mod 10 = b"
    and "(10 * (10 * (10 * a + b) + c) + d) div 10 mod 10 = c"
    and "(10 * (10 * (10 * a + b) + c) + d) mod 10 = d"
proof -
  define y1 where "y1 = 10 * a + b"
  define y2 where "y2 = 10 * y1 + c"
  define y where "y = 10 * y2 + d"
  have step: "(10 * x + r) div 10 = x \<and> (10 * x + r) mod 10 = r" if "r < 10" for x r :: nat
    using that by simp
  have d1: "y div 10 = y2" "y mod 10 = d"
    using step [OF assms(4), of y2] by (simp_all add: y_def)
  have d2: "y2 div 10 = y1" "y2 mod 10 = c"
    using step [OF assms(3), of y1] by (simp_all add: y2_def)
  have d3: "y1 div 10 = a" "y1 mod 10 = b"
    using step [OF assms(2), of a] by (simp_all add: y1_def)
  have h: "y div 100 = y div 10 div 10" using div_mult2_eq [of y 10 10] by simp
  have t: "y div 1000 = y div 100 div 10" using div_mult2_eq [of y 100 10] by simp
  have y: "10 * (10 * (10 * a + b) + c) + d = y" by (simp add: y_def y2_def y1_def)
  show "(10 * (10 * (10 * a + b) + c) + d) div 1000 mod 10 = a"
    unfolding y using assms(1) by (simp add: t h d1 d2 d3)
  show "(10 * (10 * (10 * a + b) + c) + d) div 100 mod 10 = b"
    unfolding y by (simp add: h d1 d2 d3)
  show "(10 * (10 * (10 * a + b) + c) + d) div 10 mod 10 = c"
    unfolding y by (simp add: d1 d2)
  show "(10 * (10 * (10 * a + b) + c) + d) mod 10 = d"
    unfolding y by (simp add: d1)
qed

lemma list_of_length_19:
  "length s = 19 \<Longrightarrow>
   \<exists>c0 c1 c2 c3 c4 c5 c6 c7 c8 c9 c10 c11 c12 c13 c14 c15 c16 c17 c18.
     s = [c0, c1, c2, c3, c4, c5, c6, c7, c8, c9, c10, c11, c12, c13, c14, c15, c16, c17, c18]"
proof -
  assume "length s = 19"
  then have "length s =
      Suc (Suc (Suc (Suc (Suc (Suc (Suc (Suc (Suc (Suc (Suc (Suc (Suc (Suc (Suc (Suc
        (Suc (Suc (Suc 0))))))))))))))))))"
    by simp
  then show ?thesis by (auto simp: length_Suc_conv)
qed

lemma zero_pad_eq_iff:
  "m < 10 ^ w \<Longrightarrow> n < 10 ^ w \<Longrightarrow> zero_pad w m = zero_pad w n \<longleftrightarrow> m = n"
proof (induction w arbitrary: m n)
  case 0
  then show ?case by simp
next
  case (Suc w)
  from Suc.prems have b: "m div 10 < 10 ^ w" "n div 10 < 10 ^ w"
    by (simp_all add: less_mult_imp_div_less mult.commute)
  have "zero_pad (Suc w) m = zero_pad (Suc w) n \<longleftrightarrow>
        zero_pad w (m div 10) = zero_pad w (n div 10) \<and>
        digit_char (m mod 10) = digit_char (n mod 10)"
    by simp
  also have "\<dots> \<longleftrightarrow> m div 10 = n div 10 \<and> m mod 10 = n mod 10"
    using Suc.IH [OF b] by (simp add: digit_char_eq_iff)
  also have "\<dots> \<longleftrightarrow> m = n" by (rule nat_decimal_eq [symmetric])
  finally show ?case .
qed

lemma zero_pad_less_iff:
  "m < 10 ^ w \<Longrightarrow> n < 10 ^ w \<Longrightarrow> zero_pad w m < zero_pad w n \<longleftrightarrow> m < n"
proof (induction w arbitrary: m n)
  case 0
  then show ?case by simp
next
  case (Suc w)
  from Suc.prems have b: "m div 10 < 10 ^ w" "n div 10 < 10 ^ w"
    by (simp_all add: less_mult_imp_div_less mult.commute)
  have "zero_pad (Suc w) m < zero_pad (Suc w) n \<longleftrightarrow>
        zero_pad w (m div 10) < zero_pad w (n div 10) \<or>
        zero_pad w (m div 10) = zero_pad w (n div 10) \<and>
        digit_char (m mod 10) < digit_char (n mod 10)"
    by (simp add: append_less_same_length)
  also have "\<dots> \<longleftrightarrow> m div 10 < n div 10 \<or> m div 10 = n div 10 \<and> m mod 10 < n mod 10"
    using Suc.IH [OF b] zero_pad_eq_iff [OF b] by (simp add: digit_char_less_iff)
  also have "\<dots> \<longleftrightarrow> m < n" by (rule nat_decimal_less [symmetric])
  finally show ?case .
qed

lemma zero_pad_le_iff:
  "m < 10 ^ w \<Longrightarrow> n < 10 ^ w \<Longrightarrow> zero_pad w m \<le> zero_pad w n \<longleftrightarrow> m \<le> n"
  using zero_pad_less_iff [of m w n] zero_pad_eq_iff [of m w n]
  by (auto simp: le_less)


subsection \<open>Rendered timestamps\<close>

lemma days_in_month_le_31: "days_in_month y m \<le> 31"
  by (simp add: days_in_month_def)

lemma valid_datetime_bounds:
  assumes "valid_datetime d"
  shows "year d < 10 ^ 4" "month d < 10 ^ 2" "day d < 10 ^ 2" "hour d < 10 ^ 2"
    "minute d < 10 ^ 2" "second d < 10 ^ 2"
proof -
  from assms have "day d \<le> days_in_month (year d) (month d)" by (simp add: valid_datetime_def)
  with days_in_month_le_31 [of "year d" "month d"] show "day d < 10 ^ 2" by simp
qed (use assms in \<open>simp_all add: valid_datetime_def\<close>)

lemma timestamp_text_le_iff:
  assumes "valid_datetime a" "valid_datetime b"
  shows "timestamp_text a \<le> timestamp_text b \<longleftrightarrow>
         datetime_le (a\<lparr>microsecond := 0\<rparr>) (b\<lparr>microsecond := 0\<rparr>)"
proof -
  note ba = valid_datetime_bounds [OF assms(1)]
  note bb = valid_datetime_bounds [OF assms(2)]
  have y: "zero_pad 4 (year a) < zero_pad 4 (year b) \<longleftrightarrow> year a < year b"
      "zero_pad 4 (year a) = zero_pad 4 (year b) \<longleftrightarrow> year a = year b"
    using ba(1) bb(1) by (simp_all add: zero_pad_less_iff zero_pad_eq_iff)
  have m: "zero_pad 2 (month a) < zero_pad 2 (month b) \<longleftrightarrow> month a < month b"
      "zero_pad 2 (month a) = zero_pad 2 (month b) \<longleftrightarrow> month a = month b"
    using ba(2) bb(2) by (simp_all add: zero_pad_less_iff zero_pad_eq_iff)
  have d: "zero_pad 2 (day a) < zero_pad 2 (day b) \<longleftrightarrow> day a < day b"
      "zero_pad 2 (day a) = zero_pad 2 (day b) \<longleftrightarrow> day a = day b"
    using ba(3) bb(3) by (simp_all add: zero_pad_less_iff zero_pad_eq_iff)
  have h: "zero_pad 2 (hour a) < zero_pad 2 (hour b) \<longleftrightarrow> hour a < hour b"
      "zero_pad 2 (hour a) = zero_pad 2 (hour b) \<longleftrightarrow> hour a = hour b"
    using ba(4) bb(4) by (simp_all add: zero_pad_less_iff zero_pad_eq_iff)
  have mi: "zero_pad 2 (minute a) < zero_pad 2 (minute b) \<longleftrightarrow> minute a < minute b"
      "zero_pad 2 (minute a) = zero_pad 2 (minute b) \<longleftrightarrow> minute a = minute b"
    using ba(5) bb(5) by (simp_all add: zero_pad_less_iff zero_pad_eq_iff)
  have s: "zero_pad 2 (second a) \<le> zero_pad 2 (second b) \<longleftrightarrow> second a \<le> second b"
    using ba(6) bb(6) by (simp add: zero_pad_le_iff)
  have "timestamp_text a \<le> timestamp_text b \<longleftrightarrow>
        year a < year b \<or> year a = year b \<and>
        (month a < month b \<or> month a = month b \<and>
        (day a < day b \<or> day a = day b \<and>
        (hour a < hour b \<or> hour a = hour b \<and>
        (minute a < minute b \<or> minute a = minute b \<and> second a \<le> second b))))"
    by (simp add: timestamp_text_def append_le_same_length y m d h mi s)
  also have "\<dots> \<longleftrightarrow> datetime_le (a\<lparr>microsecond := 0\<rparr>) (b\<lparr>microsecond := 0\<rparr>)"
    by (auto simp: datetime_le_def datetime_key_def)
  finally show ?thesis .
qed


lemma digits_value_snoc:
  "digits_value (cs @ [c]) = 10 * digits_value cs + (of_char c - 48)"
  by (simp add: digits_value_def)

lemma digits_value_zero_pad: "n < 10 ^ w \<Longrightarrow> digits_value (zero_pad w n) = n"
proof (induction w arbitrary: n)
  case 0
  then show ?case by (simp add: digits_value_def)
next
  case (Suc w)
  from Suc.prems have "n div 10 < 10 ^ w"
    by (simp add: less_mult_imp_div_less mult.commute)
  from Suc.IH [OF this] show ?case
    by (simp add: digits_value_snoc of_char_digit_char)
qed

lemma is_digit_zero_pad: "list_all is_digit (zero_pad w n)"
  by (induction w arbitrary: n) (simp_all add: is_digit_digit_char)

lemma timestamp_text_fields:
  "take 4 (timestamp_text d) = zero_pad 4 (year d)"
  "take 2 (drop 5 (timestamp_text d)) = zero_pad 2 (month d)"
  "take 2 (drop 8 (timestamp_text d)) = zero_pad 2 (day d)"
  "take 2 (drop 11 (timestamp_text d)) = zero_pad 2 (hour d)"
  "take 2 (drop 14 (timestamp_text d)) = zero_pad 2 (minute d)"
  "take 2 (drop 17 (timestamp_text d)) = zero_pad 2 (second d)"
  by (simp_all add: timestamp_text_def)

lemma timestamp_text_separators:
  "length (timestamp_text d) = 19"
  "timestamp_text d ! 4 = CHR ''-''" "timestamp_text d ! 7 = CHR ''-''" "timestamp_text d ! 10 = CHR '' ''"
  "timestamp_text d ! 13 = CHR '':''" "timestamp_text d ! 16 = CHR '':''"
  by (simp_all add: timestamp_text_def nth_append)

lemma timestamp_format_text: "timestamp_format (timestamp_text d)"
  by (simp add: timestamp_format_def timestamp_text_fields timestamp_text_separators is_digit_zero_pad)

lemma strptime_timestamp_text:
  assumes "valid_datetime d"
  shows "strptime (timestamp_text d) = Inr (d\<lparr>microsecond := 0\<rparr>)"
proof -
  note b = valid_datetime_bounds [OF assms]
  have v: "valid_datetime (d\<lparr>microsecond := 0\<rparr>)"
    using assms by (simp add: valid_datetime_def)
  have r: "\<lparr>year = year d, month = month d, day = day d, hour = hour d, minute = minute d,
            second = second d, microsecond = 0\<rparr> = d\<lparr>microsecond := 0\<rparr>"
    by simp
  have f: "digits_value (zero_pad 4 (year d)) = year d"
      "digits_value (zero_pad 2 (month d)) = month d"
      "digits_value (zero_pad 2 (day d)) = day d"
      "digits_value (zero_pad 2 (hour d)) = hour d"
      "digits_value (zero_pad 2 (minute d)) = minute d"
      "digits_value (zero_pad 2 (second d)) = second d"
    by (rule digits_value_zero_pad, rule b)+
  show ?thesis
    unfolding strptime_def timestamp_text_fields f r Let_def
    using v by (simp add: timestamp_format_text)
qed


lemma digits_value_2:
  "digits_value [c1, c2] = 10 * (of_char c1 - 48) + (of_char c2 - 48)"
  by (simp add: digits_value_def)

lemma digits_value_4:
  "digits_value [c1, c2, c3, c4] =
     10 * (10 * (10 * (of_char c1 - 48) + (of_char c2 - 48)) + (of_char c3 - 48)) +
     (of_char c4 - 48)"
  by (simp add: digits_value_def)

lemma strptime_InrD:
  assumes "strptime s = Inr d"
  shows "timestamp_text d = s" and "valid_datetime d" and "microsecond d = 0"
    and "timestamp_format s"
proof -
  from assms show tf: "timestamp_format s"
    by (simp add: strptime_def split: if_splits)
  let ?d = "\<lparr>year = digits_value (take 4 s), month = digits_value (take 2 (drop 5 s)),
             day = digits_value (take 2 (drop 8 s)), hour = digits_value (take 2 (drop 11 s)),
             minute = digits_value (take 2 (drop 14 s)),
             second = digits_value (take 2 (drop 17 s)), microsecond = 0\<rparr>"
  from assms tf have d: "d = ?d" and v: "valid_datetime ?d"
    by (simp_all add: strptime_def Let_def split: if_splits)
  from v d show "valid_datetime d" by simp
  from d show "microsecond d = 0" by simp
  from tf have "length s = 19" by (simp add: timestamp_format_def)
  from list_of_length_19 [OF this]
  obtain c0 c1 c2 c3 c4 c5 c6 c7 c8 c9 c10 c11 c12 c13 c14 c15 c16 c17 c18 where
    s: "s = [c0, c1, c2, c3, c4, c5, c6, c7, c8, c9, c10, c11, c12, c13, c14, c15, c16, c17, c18]"
    by (elim exE)
  from tf have dg: "is_digit c0" "is_digit c1" "is_digit c2" "is_digit c3" "is_digit c5"
      "is_digit c6" "is_digit c8" "is_digit c9" "is_digit c11" "is_digit c12" "is_digit c14"
      "is_digit c15" "is_digit c17" "is_digit c18"
    and sep: "c4 = CHR ''-''" "c7 = CHR ''-''" "c10 = CHR '' ''" "c13 = CHR '':''"
      "c16 = CHR '':''"
    by (simp_all add: timestamp_format_def s)
  note lt = dg [THEN digit_value_less_10]
  have yr: "year d = 10 * (10 * (10 * (of_char c0 - 48) + (of_char c1 - 48)) + (of_char c2 - 48)) + (of_char c3 - 48)"
    by (simp add: d s digits_value_4)
  have mo: "month d = 10 * (of_char c5 - 48) + (of_char c6 - 48)"
    by (simp add: d s digits_value_2)
  have da: "day d = 10 * (of_char c8 - 48) + (of_char c9 - 48)"
    by (simp add: d s digits_value_2)
  have ho: "hour d = 10 * (of_char c11 - 48) + (of_char c12 - 48)"
    by (simp add: d s digits_value_2)
  have mn: "minute d = 10 * (of_char c14 - 48) + (of_char c15 - 48)"
    by (simp add: d s digits_value_2)
  have se: "second d = 10 * (of_char c17 - 48) + (of_char c18 - 48)"
    by (simp add: d s digits_value_2)
  have ydig: "digit_char (year d div 1000 mod 10) = c0" "digit_char (year d div 100 mod 10) = c1"
      "digit_char (year d div 10 mod 10) = c2" "digit_char (year d mod 10) = c3"
    by (simp_all only: yr four_digits [OF lt(1) lt(2) lt(3) lt(4)] digit_char_of_digit [OF dg(1)]
        digit_char_of_digit [OF dg(2)] digit_char_of_digit [OF dg(3)] digit_char_of_digit [OF dg(4)])
  have modig: "digit_char (month d div 10 mod 10) = c5" "digit_char (month d mod 10) = c6"
    by (simp_all only: mo two_digits(1,2) [OF lt(5) lt(6)] digit_char_of_digit [OF dg(5)]
        digit_char_of_digit [OF dg(6)])
  have dadig: "digit_char (day d div 10 mod 10) = c8" "digit_char (day d mod 10) = c9"
    by (simp_all only: da two_digits(1,2) [OF lt(7) lt(8)] digit_char_of_digit [OF dg(7)]
        digit_char_of_digit [OF dg(8)])
  have hodig: "digit_char (hour d div 10 mod 10) = c11" "digit_char (hour d mod 10) = c12"
    by (simp_all only: ho two_digits(1,2) [OF lt(9) lt(10)] digit_char_of_digit [OF dg(9)]
        digit_char_of_digit [OF dg(10)])
  have mndig: "digit_char (minute d div 10 mod 10) = c14" "digit_char (minute d mod 10) = c15"
    by (simp_all only: mn two_digits(1,2) [OF lt(11) lt(12)] digit_char_of_digit [OF dg(11)]
        digit_char_of_digit [OF dg(12)])
  have sedig: "digit_char (second d div 10 mod 10) = c17" "digit_char (second d mod 10) = c18"
    by (simp_all only: se two_digits(1,2) [OF lt(13) lt(14)] digit_char_of_digit [OF dg(13)]
        digit_char_of_digit [OF dg(14)])
  show "timestamp_text d = s"
    unfolding timestamp_text_digits ydig modig dadig hodig mndig sedig by (simp add: s sep)
qed

lemma timestamp_order:
  assumes "strptime s1 = Inr d1" "strptime s2 = Inr d2"
  shows "s1 \<le> s2 \<longleftrightarrow> datetime_le d1 d2"
proof -
  note a = strptime_InrD [OF assms(1)]
  note b = strptime_InrD [OF assms(2)]
  have "d1\<lparr>microsecond := 0\<rparr> = d1" "d2\<lparr>microsecond := 0\<rparr> = d2"
    using a(3) b(3) by simp_all
  with timestamp_text_le_iff [OF a(2) b(2)] a(1) b(1) show ?thesis by simp
qed


subsection \<open>Order of date-times\<close>

lemma datetime_le_trans: "datetime_le a b \<Longrightarrow> datetime_le b c \<Longrightarrow> datetime_le a c"
  unfolding datetime_le_def by (rule order_trans)

lemma datetime_less_not_le: "datetime_less a b \<Longrightarrow> \<not> datetime_le b a"
  unfolding datetime_le_def datetime_less_def by simp

lemma datetime_min_le: "valid_datetime t \<Longrightarrow> datetime_le datetime_min t"
  by (auto simp: datetime_le_def datetime_key_def datetime_min_def valid_datetime_def)

lemma truncated_le: "datetime_le (t\<lparr>microsecond := 0\<rparr>) t"
  by (auto simp: datetime_le_def datetime_key_def)

subsection \<open>The filter\<close>

lemma parsesE:
  assumes "parses e"
  obtains t where "strptime (e_timestamp e) = Inr t"
  using assms by (cases "strptime (e_timestamp e)") (simp_all add: parses_def)

lemma points_Nil [simp]: "points [] = []"
  by (simp add: points_def)

lemma points_Cons:
  "strptime (e_timestamp e) = Inr t \<Longrightarrow> points (e # es) = (e_score e, t) # points es"
  by (simp add: points_def)

lemma filter_entries_points:
  "list_all parses entries \<Longrightarrow>
   filter_entries start end entries = Inr (points (filter (in_window start end) entries))"
proof (induction entries)
  case Nil
  then show ?case by simp
next
  case (Cons e es)
  from Cons.prems have "parses e" and rest: "list_all parses es" by simp_all
  then obtain t where t: "strptime (e_timestamp e) = Inr t" by (auto elim: parsesE)
  from Cons.IH [OF rest]
  have ih: "filter_entries start end es = Inr (points (filter (in_window start end) es))" .
  show ?case
  proof (cases "datetime_le start t \<and> datetime_le t end")
    case True
    then have "in_window start end e" by (simp add: in_window_def t)
    with True t ih show ?thesis by (simp add: points_Cons)
  next
    case False
    then have "\<not> in_window start end e" by (simp add: in_window_def t)
    with False t ih show ?thesis by simp
  qed
qed

lemma empty_window: "datetime_less end start \<Longrightarrow> \<not> in_window start end e"
proof
  assume lt: "datetime_less end start" and "in_window start end e"
  then obtain t where "datetime_le start t" "datetime_le t end"
    by (auto simp: in_window_def split: sum.splits)
  then have "datetime_le start end" by (rule datetime_le_trans)
  with datetime_less_not_le [OF lt] show False by simp
qed

lemma filter_empty_window: "datetime_less end start \<Longrightarrow> filter (in_window start end) es = []"
  by (simp add: empty_window)

lemma points_fst: "list_all parses es \<Longrightarrow> map fst (points es) = map e_score es"
proof (induction es)
  case Nil
  then show ?case by simp
next
  case (Cons e es)
  then obtain t where "strptime (e_timestamp e) = Inr t" by (auto elim: parsesE)
  with Cons show ?case by (simp add: points_Cons)
qed

lemma points_snd:
  "list_all parses es \<Longrightarrow> map (timestamp_text \<circ> snd) (points es) = map e_timestamp es"
proof (induction es)
  case Nil
  then show ?case by simp
next
  case (Cons e es)
  then obtain t where t: "strptime (e_timestamp e) = Inr t" by (auto elim: parsesE)
  from strptime_InrD(1) [OF t] t Cons show ?case by (simp add: points_Cons)
qed

lemma points_parse:
  "list_all parses es \<Longrightarrow>
   map (\<lambda>e. strptime (e_timestamp e)) es = map (Inr \<circ> snd) (points es)"
proof (induction es)
  case Nil
  then show ?case by simp
next
  case (Cons e es)
  then obtain t where t: "strptime (e_timestamp e) = Inr t" by (auto elim: parsesE)
  with Cons show ?case by (simp add: points_Cons)
qed

lemma parses_listing:
  "list_all parses rows \<Longrightarrow> list_all parses (order_by_timestamp_desc rows)"
  by (simp add: list_all_iff)

lemma update_graph_points:
  assumes "list_all parses (checklist_entries (store self))"
    and "list_all parses (gad7_entries (store self))"
  shows "update_graph days_before now self =
     Inr (points (filter (in_window (fst (resolve_window days_before now self))
                                    (snd (resolve_window days_before now self)))
            (if contains ''Depression'' (graph_select self) then get_all_entries (store self)
             else get_all_gad7_entries (store self))))"
proof -
  have "list_all parses (if contains ''Depression'' (graph_select self)
          then get_all_entries (store self) else get_all_gad7_entries (store self))"
    using assms by (simp add: get_all_entries_def get_all_gad7_entries_def parses_listing)
  from filter_entries_points [OF this] show ?thesis
    by (simp add: update_graph_def Let_def)
qed

lemma custom_window:
  "time_filter self = ''Custom'' \<Longrightarrow>
   resolve_window days_before now self = (date_from self, date_to self)"
  by (simp add: resolve_window_def)

text \<open>
  Claim C6. For every list of entries whose timestamps parse and every window, the filter
  returns, in the order of the input, exactly the entries whose time \<open>t\<close> satisfies
  \<open>start \<le> t \<le> end\<close>, both ends included, each as the pair of its score and its time;
  nothing is sorted again. So when the end of the window lies before its start, the result is
  the empty list whatever entries there are, and no exception is raised; this is what the
  graph view computes for a custom range with "To" before "From".
\<close>

theorem time_filter_keeps_window:
  "(list_all parses entries \<longrightarrow>
      filter_entries start end entries = Inr (points (filter (in_window start end) entries)) \<and>
      map fst (points (filter (in_window start end) entries)) =
        map e_score (filter (in_window start end) entries) \<and>
      map (timestamp_text \<circ> snd) (points (filter (in_window start end) entries)) =
        map e_timestamp (filter (in_window start end) entries) \<and>
      map (\<lambda>e. strptime (e_timestamp e)) (filter (in_window start end) entries) =
        map (Inr \<circ> snd) (points (filter (in_window start end) entries)) \<and>
      (datetime_less end start \<longrightarrow> filter_entries start end entries = Inr [])) \<and>
   (list_all parses (checklist_entries (store self)) \<and>
    list_all parses (gad7_entries (store self)) \<and>
    time_filter self = ''Custom'' \<and> datetime_less (date_to self) (date_from self) \<longrightarrow>
      update_graph days_before now self = Inr [])"
proof (intro conjI impI)
  assume p: "list_all parses entries"
  then have k: "list_all parses (filter (in_window start end) entries)"
    by (simp add: list_all_iff)
  show "filter_entries start end entries = Inr (points (filter (in_window start end) entries))"
    by (rule filter_entries_points [OF p])
  show "map fst (points (filter (in_window start end) entries)) =
     map e_score (filter (in_window start end) entries)"
    by (rule points_fst [OF k])
  show "map (timestamp_text \<circ> snd) (points (filter (in_window start end) entries)) =
     map e_timestamp (filter (in_window start end) entries)"
    by (rule points_snd [OF k])
  show "map (\<lambda>e. strptime (e_timestamp e)) (filter (in_window start end) entries) =
     map (Inr \<circ> snd) (points (filter (in_window start end) entries))"
    by (rule points_parse [OF k])
  show "filter_entries start end entries = Inr []" if "datetime_less end start"
    using filter_entries_points [OF p, of start "end"] filter_empty_window [OF that, of entries]
    by simp
next
  assume a: "list_all parses (checklist_entries (store self)) \<and>
    list_all parses (gad7_entries (store self)) \<and>
    time_filter self = ''Custom'' \<and> datetime_less (date_to self) (date_from self)"
  then have w: "resolve_window days_before now self = (date_from self, date_to self)"
    by (simp add: custom_window)
  from a have e: "filter (in_window (date_from self) (date_to self)) es = []" for es
    by (simp add: filter_empty_window)
  from a update_graph_points [of self days_before now]
  show "update_graph days_before now self = Inr []"
    unfolding w by (simp add: e)
qed

subsection \<open>Timestamps rendered from the wall clock\<close>

lemma wall_clock_valid: "wall_clock d \<Longrightarrow> valid_datetime d"
  by (simp add: wall_clock_def)

lemma strptime_strftime:
  "wall_clock d \<Longrightarrow> strptime (strftime d) = Inr (d\<lparr>microsecond := 0\<rparr>)"
  by (simp add: strftime_wall_clock strptime_timestamp_text wall_clock_valid)

lemma timestamp_format_strftime: "wall_clock d \<Longrightarrow> timestamp_format (strftime d)"
  by (simp add: strftime_wall_clock timestamp_format_text)

lemma length_strftime: "wall_clock d \<Longrightarrow> length (strftime d) = 19"
  by (simp add: strftime_wall_clock timestamp_text_separators)

subsection \<open>Concrete timestamps\<close>

lemma strptime_clock_a:
  "strptime ''2023-12-31 23:59:59'' =
     Inr \<lparr>year = 2023, month = 12, day = 31, hour = 23, minute = 59, second = 59,
          microsecond = 0\<rparr>"
  using strptime_strftime [OF wall_clocks(1)] unfolding strftime_clock_a
  by (simp add: clock_a_def)

lemma strptime_clock_b:
  "strptime ''2024-03-05 09:07:01'' =
     Inr \<lparr>year = 2024, month = 3, day = 5, hour = 9, minute = 7, second = 1,
          microsecond = 0\<rparr>"
  using strptime_strftime [OF wall_clocks(2)] unfolding strftime_clock_b
  by (simp add: clock_b_def)

lemma example_listing:
  "get_all_entries example_db =
     [\<lparr>e_id = 1, e_score = 30, e_level = ''Moderate depression'',
       e_timestamp = ''2024-03-05 09:07:01''\<rparr>,
      \<lparr>e_id = 2, e_score = 7, e_level = ''Normal but unhappy'',
       e_timestamp = ''2023-12-31 23:59:59''\<rparr>]"
  by (simp add: example_db_value get_all_entries_def order_by_timestamp_desc_def)

lemma example_gad7_listing:
  "get_all_gad7_entries example_db =
     [\<lparr>e_id = 1, e_score = 10, e_level = ''Moderate anxiety'',
       e_timestamp = ''2024-03-05 09:07:01''\<rparr>]"
  by (simp add: example_db_value get_all_gad7_entries_def order_by_timestamp_desc_def)

lemma example_rows:
  "checklist_entries example_db =
     [\<lparr>e_id = 1, e_score = 30, e_level = ''Moderate depression'',
       e_timestamp = ''2024-03-05 09:07:01''\<rparr>,
      \<lparr>e_id = 2, e_score = 7, e_level = ''Normal but unhappy'',
       e_timestamp = ''2023-12-31 23:59:59''\<rparr>]"
  "gad7_entries example_db =
     [\<lparr>e_id = 1, e_score = 10, e_level = ''Moderate anxiety'',
       e_timestamp = ''2024-03-05 09:07:01''\<rparr>]"
  by (simp_all add: example_db_value)

theorem time_filter_keeps_window_witness:
  "list_all parses (get_all_entries example_db) \<and>
   filter_entries clock_a clock_c (get_all_entries example_db) =
     Inr [(30, \<lparr>year = 2024, month = 3, day = 5, hour = 9, minute = 7, second = 1,
                microsecond = 0\<rparr>)] \<and>
   filter_entries datetime_min clock_b (get_all_entries example_db) =
     Inr [(30, \<lparr>year = 2024, month = 3, day = 5, hour = 9, minute = 7, second = 1,
                microsecond = 0\<rparr>),
          (7, \<lparr>year = 2023, month = 12, day = 31, hour = 23, minute = 59, second = 59,
               microsecond = 0\<rparr>)] \<and>
   datetime_less clock_a clock_c \<and>
   filter_entries clock_c clock_a (get_all_entries example_db) = Inr [] \<and>
   list_all parses (checklist_entries example_db) \<and>
   list_all parses (gad7_entries example_db) \<and>
   update_graph (\<lambda>t n. t) clock_c
     (example_tracker\<lparr>store := example_db, time_filter := ''Custom'', date_from := clock_c,
        date_to := clock_a\<rparr>) = Inr []"
  using time_filter_keeps_window [of "get_all_entries example_db" clock_c clock_a
      "example_tracker\<lparr>store := example_db, time_filter := ''Custom'', date_from := clock_c,
        date_to := clock_a\<rparr>" "\<lambda>t n. t" clock_c]
  by (simp add: example_listing example_gad7_listing example_rows parses_def
      strptime_clock_a strptime_clock_b datetime_le_def datetime_less_def datetime_key_def
      datetime_min_def clock_a_def clock_b_def clock_c_def)

section \<open>Listings and the rows of a history of saves\<close>

subsection \<open>Listings\<close>

lemma mset_order_by_timestamp_desc: "mset (order_by_timestamp_desc rows) = mset rows"
  by (simp add: order_by_timestamp_desc_def)

lemma later_or_equal_iff:
  "parses a \<Longrightarrow> parses b \<Longrightarrow> later_or_equal a b \<longleftrightarrow> e_timestamp b \<le> e_timestamp a"
proof -
  assume a: "parses a" and b: "parses b"
  from a obtain ta where ta: "strptime (e_timestamp a) = Inr ta" by (rule parsesE)
  from b obtain tb where tb: "strptime (e_timestamp b) = Inr tb" by (rule parsesE)
  from timestamp_order [OF tb ta] ta tb show ?thesis
    by (simp add: later_or_equal_def)
qed

lemma order_by_timestamp_desc_sorted:
  "sorted_wrt (\<lambda>a b. e_timestamp b \<le> e_timestamp a) (order_by_timestamp_desc rows)"
proof -
  have "sorted (map e_timestamp (sort_key e_timestamp (rev rows)))"
    by (rule sorted_sort_key)
  then have "sorted_wrt (\<lambda>a b. e_timestamp a \<le> e_timestamp b) (sort_key e_timestamp (rev rows))"
    by (simp add: sorted_map)
  then show ?thesis
    by (simp add: order_by_timestamp_desc_def sorted_wrt_rev)
qed

lemma newest_first_listing:
  assumes "list_all parses rows"
  shows "newest_first (order_by_timestamp_desc rows)"
proof -
  have p: "\<forall>e\<in>set (order_by_timestamp_desc rows). parses e"
    using assms by (simp add: list_all_iff)
  show ?thesis
    unfolding newest_first_def
  proof (rule sorted_wrt_mono_rel [OF _ order_by_timestamp_desc_sorted])
    fix a b
    assume "a \<in> set (order_by_timestamp_desc rows)" "b \<in> set (order_by_timestamp_desc rows)"
      and "e_timestamp b \<le> e_timestamp a"
    with p show "later_or_equal a b" by (simp add: later_or_equal_iff)
  qed
qed

subsection \<open>Rows written by the save operations\<close>

lemma stamped_well_formed:
  "wall_clock t \<Longrightarrow> e_timestamp e = strftime t \<Longrightarrow>
   timestamp_format (e_timestamp e) \<and> parses e"
  by (simp add: timestamp_format_strftime parses_def strptime_strftime)

lemma stamped_not_after:
  assumes "wall_clock t" "datetime_le t now" "e_timestamp e = strftime t"
  shows "not_after now e"
proof -
  have "datetime_le (t\<lparr>microsecond := 0\<rparr>) now"
    by (rule datetime_le_trans [OF truncated_le assms(2)])
  then show ?thesis
    by (simp add: not_after_def assms(3) strptime_strftime [OF assms(1)])
qed

lemma in_window_from_min:
  "in_window datetime_min now e \<longleftrightarrow> not_after now e"
proof (cases "strptime (e_timestamp e)")
  case (Inl err)
  then show ?thesis by (simp add: in_window_def not_after_def)
next
  case (Inr t)
  from strptime_InrD(2) [OF Inr] have "datetime_le datetime_min t" by (rule datetime_min_le)
  with Inr show ?thesis by (simp add: in_window_def not_after_def)
qed

lemma save_score_rows:
  "checklist_entries (snd (save_score t s db)) = checklist_entries db \<or>
   (\<exists>e. e_timestamp e = strftime t \<and>
        checklist_entries (snd (save_score t s db)) = checklist_entries db @ [e])"
  "gad7_entries (snd (save_score t s db)) = gad7_entries db"
  by (simp_all add: save_score_def Let_def)

lemma save_gad7_score_rows:
  "gad7_entries (snd (save_gad7_score t s db)) = gad7_entries db \<or>
   (\<exists>e. e_timestamp e = strftime t \<and>
        gad7_entries (snd (save_gad7_score t s db)) = gad7_entries db @ [e])"
  "checklist_entries (snd (save_gad7_score t s db)) = checklist_entries db"
  by (simp_all add: save_gad7_score_def Let_def)

lemma well_formed_save_score:
  assumes "wall_clock now" "timestamps_well_formed db"
  shows "timestamps_well_formed (snd (save_score now score db))"
  using save_score_rows [of now score db] assms(2) stamped_well_formed [OF assms(1)]
  unfolding timestamps_well_formed_def by auto

lemma well_formed_save_gad7_score:
  assumes "wall_clock now" "timestamps_well_formed db"
  shows "timestamps_well_formed (snd (save_gad7_score now score db))"
  using save_gad7_score_rows [of now score db] assms(2) stamped_well_formed [OF assms(1)]
  unfolding timestamps_well_formed_def by auto

lemma well_formed_fresh_db: "timestamps_well_formed fresh_db"
  by (simp add: timestamps_well_formed_def fresh_db_def)

lemma well_formed_run_saves:
  "wall_clock_calls calls \<Longrightarrow> timestamps_well_formed db \<Longrightarrow>
   timestamps_well_formed (run_saves calls db)"
proof (induction calls arbitrary: db)
  case Nil
  then show ?case by simp
next
  case (Cons c calls)
  from Cons.prems(1) have v: "wall_clock (call_time c)" and rest: "wall_clock_calls calls"
    by (simp_all add: wall_clock_calls_def)
  show ?case
  proof (cases c)
    case (Save_score t s)
    with v have "timestamps_well_formed (snd (save_score t s db))"
      by (simp add: well_formed_save_score Cons.prems(2))
    from Cons.IH [OF rest this] Save_score show ?thesis by simp
  next
    case (Save_gad7_score t s)
    with v have "timestamps_well_formed (snd (save_gad7_score t s db))"
      by (simp add: well_formed_save_gad7_score Cons.prems(2))
    from Cons.IH [OF rest this] Save_gad7_score show ?thesis by simp
  qed
qed

lemma well_formed_parses:
  assumes "timestamps_well_formed db"
  shows "list_all parses (checklist_entries db)" and "list_all parses (gad7_entries db)"
  using assms by (simp_all add: timestamps_well_formed_def list_all_iff)

lemma not_after_save_score:
  assumes "wall_clock t" "datetime_le t now"
    and "list_all (not_after now) (checklist_entries db @ gad7_entries db)"
  shows "list_all (not_after now)
           (checklist_entries (snd (save_score t s db)) @ gad7_entries (snd (save_score t s db)))"
  using save_score_rows [of t s db] assms(3) stamped_not_after [OF assms(1,2)]
  by auto

lemma not_after_save_gad7_score:
  assumes "wall_clock t" "datetime_le t now"
    and "list_all (not_after now) (checklist_entries db @ gad7_entries db)"
  shows "list_all (not_after now)
           (checklist_entries (snd (save_gad7_score t s db)) @
            gad7_entries (snd (save_gad7_score t s db)))"
  using save_gad7_score_rows [of t s db] assms(3) stamped_not_after [OF assms(1,2)]
  by auto

lemma not_after_run_saves:
  "wall_clock_calls calls \<Longrightarrow> saved_by now calls \<Longrightarrow>
   list_all (not_after now) (checklist_entries db @ gad7_entries db) \<Longrightarrow>
   list_all (not_after now)
     (checklist_entries (run_saves calls db) @ gad7_entries (run_saves calls db))"
proof (induction calls arbitrary: db)
  case Nil
  then show ?case by simp
next
  case (Cons c calls)
  from Cons.prems(1) have w: "wall_clock (call_time c)" and wrest: "wall_clock_calls calls"
    by (simp_all add: wall_clock_calls_def)
  from Cons.prems(2) have l: "datetime_le (call_time c) now" and rest: "saved_by now calls"
    by (simp_all add: saved_by_def)
  show ?case
  proof (cases c)
    case (Save_score t s)
    with w l not_after_save_score [OF _ _ Cons.prems(3), of t s]
    have "list_all (not_after now)
           (checklist_entries (snd (save_score t s db)) @ gad7_entries (snd (save_score t s db)))"
      by simp
    from Cons.IH [OF wrest rest this] Save_score show ?thesis by simp
  next
    case (Save_gad7_score t s)
    with w l not_after_save_gad7_score [OF _ _ Cons.prems(3), of t s]
    have "list_all (not_after now)
           (checklist_entries (snd (save_gad7_score t s db)) @
            gad7_entries (snd (save_gad7_score t s db)))"
      by simp
    from Cons.IH [OF wrest rest this] Save_gad7_score show ?thesis by simp
  qed
qed

lemma not_after_history:
  "wall_clock_calls calls \<Longrightarrow> saved_by now calls \<Longrightarrow>
   list_all (not_after now)
     (checklist_entries (run_saves calls fresh_db) @ gad7_entries (run_saves calls fresh_db))"
  by (rule not_after_run_saves) (simp_all add: fresh_db_def)

lemma all_time_window:
  "time_filter self = ''All Time'' \<Longrightarrow>
   resolve_window days_before now self = (datetime_min, now)"
  by (simp add: resolve_window_def)

lemma filter_window_from_min:
  "filter (in_window datetime_min now) es = filter (not_after now) es"
proof -
  have "in_window datetime_min now = not_after now"
    by (rule ext) (rule in_window_from_min)
  then show ?thesis by simp
qed

lemma filter_all_not_after:
  "list_all (not_after now) es \<Longrightarrow> filter (not_after now) es = es"
  by (simp add: list_all_iff)

lemma not_after_listing:
  "list_all (not_after now) rows \<Longrightarrow> list_all (not_after now) (order_by_timestamp_desc rows)"
  by (simp add: list_all_iff)

lemma graph_selection:
  "contains ''Depression'' ''Depression (Burns)''"
  "\<not> contains ''Depression'' ''Anxiety (GAD-7)''"
  by simp_all

lemma update_graph_all_time:
  assumes "list_all parses (checklist_entries (store self))"
    and "list_all parses (gad7_entries (store self))"
    and "time_filter self = ''All Time''"
  shows "graph_select self = ''Depression (Burns)'' \<Longrightarrow>
           update_graph days_before now self =
             Inr (points (filter (not_after now) (get_all_entries (store self))))"
    and "graph_select self = ''Anxiety (GAD-7)'' \<Longrightarrow>
           update_graph days_before now self =
             Inr (points (filter (not_after now) (get_all_gad7_entries (store self))))"
  using update_graph_points [OF assms(1,2), of days_before now]
  unfolding all_time_window [OF assms(3)] fst_conv snd_conv filter_window_from_min
  by (simp_all add: graph_selection)

subsection \<open>The example history\<close>

lemma example_calls_wall_clock: "wall_clock_calls example_calls"
  by (simp add: wall_clock_calls_def example_calls_def wall_clocks)

lemma clocks_in_order: "datetime_le clock_a clock_c" "datetime_le clock_b clock_c"
  by (simp_all add: datetime_le_def datetime_key_def clock_a_def clock_b_def clock_c_def)

lemma saved_by_example: "saved_by clock_c example_calls"
  by (simp add: saved_by_def example_calls_def clocks_in_order)

lemma example_db_well_formed: "timestamps_well_formed example_db"
  unfolding example_db_def
  by (rule well_formed_run_saves [OF example_calls_wall_clock well_formed_fresh_db])

subsection \<open>A year of three digits\<close>

text \<open>
  Before the year 1000 the rendering is shorter than the layout, and the parser rejects it.
\<close>

lemma strftime_year_999:
  "strftime \<lparr>year = 999, month = 1, day = 1, hour = 0, minute = 0, second = 0, microsecond = 0\<rparr> =
     ''999-01-01 00:00:00''"
  "strptime ''999-01-01 00:00:00'' = Inl (ValueError ''time data does not match format'')"
proof -
  have "str_nat 999 = ''999''"
    by (simp add: str_nat.simps digit_char_literals)
  then show "strftime \<lparr>year = 999, month = 1, day = 1, hour = 0, minute = 0, second = 0,
      microsecond = 0\<rparr> = ''999-01-01 00:00:00''"
    by (simp add: strftime_def numeral_2_eq_2 digit_char_literals)
  show "strptime ''999-01-01 00:00:00'' = Inl (ValueError ''time data does not match format'')"
    by (simp add: strptime_def timestamp_format_def)
qed

section \<open>The preset All Time\<close>

text \<open>
  Claim C7, as stated: under the preset \<^verbatim>\<open>All Time\<close>, filtering returns every persisted
  entry of the selected instrument. It does not when an entry was saved at a clock reading
  later than the one the query takes (the clock was set back in between, or the local time
  was moved back an hour at the end of daylight saving). The checklist table holds two
  rows, saved at 2024-03-05 09:07:01 and at 2023-12-31 23:59:59; the query with the preset,
  at the clock reading 2023-12-31 23:59:59.25, returns the second row only.
\<close>

theorem all_time_drops_later_entries_counterexample:
  "time_filter (example_tracker\<lparr>store := example_db\<rparr>) = ''All Time'' \<and>
   graph_select (example_tracker\<lparr>store := example_db\<rparr>) = ''Depression (Burns)'' \<and>
   store (example_tracker\<lparr>store := example_db\<rparr>) = run_saves example_calls fresh_db \<and>
   wall_clock_calls example_calls \<and> wall_clock clock_a \<and>
   get_all_entries example_db =
     [\<lparr>e_id = 1, e_score = 30, e_level = ''Moderate depression'',
       e_timestamp = ''2024-03-05 09:07:01''\<rparr>,
      \<lparr>e_id = 2, e_score = 7, e_level = ''Normal but unhappy'',
       e_timestamp = ''2023-12-31 23:59:59''\<rparr>] \<and>
   update_graph (\<lambda>t n. t) clock_a (example_tracker\<lparr>store := example_db\<rparr>) =
     Inr [(7, \<lparr>year = 2023, month = 12, day = 31, hour = 23, minute = 59, second = 59,
               microsecond = 0\<rparr>)]"
proof -
  have "update_graph (\<lambda>t n. t) clock_a (example_tracker\<lparr>store := example_db\<rparr>) =
      filter_entries datetime_min clock_a (get_all_entries example_db)"
    by (simp add: update_graph_def resolve_window_def example_tracker_def)
  also have "\<dots> =
     Inr [(7, \<lparr>year = 2023, month = 12, day = 31, hour = 23, minute = 59, second = 59,
               microsecond = 0\<rparr>)]"
    by (simp add: example_listing strptime_clock_a strptime_clock_b datetime_le_def
        datetime_key_def datetime_min_def clock_a_def)
  finally have g: "update_graph (\<lambda>t n. t) clock_a (example_tracker\<lparr>store := example_db\<rparr>) =
     Inr [(7, \<lparr>year = 2023, month = 12, day = 31, hour = 23, minute = 59, second = 59,
               microsecond = 0\<rparr>)]" .
  have s: "store (example_tracker\<lparr>store := example_db\<rparr>) = run_saves example_calls fresh_db"
    by (simp add: example_db_def)
  have f: "time_filter (example_tracker\<lparr>store := example_db\<rparr>) = ''All Time''"
      "graph_select (example_tracker\<lparr>store := example_db\<rparr>) = ''Depression (Burns)''"
    by (simp_all add: example_tracker_def)
  show ?thesis
    unfolding g s f by (simp add: example_listing example_calls_wall_clock wall_clocks(1))
qed

text \<open>
  Claim C7, amended. Under the preset \<^verbatim>\<open>All Time\<close> the window is resolved with start =
  \<^verbatim>\<open>datetime.min\<close> and end = now. After any history of saves at wall-clock readings, with
  the graph \<^verbatim>\<open>Depression (Burns)\<close> selected the query returns the points of exactly those
  rows of the checklist listing whose timestamp is not later than now, in listing order;
  with the graph \<^verbatim>\<open>Anxiety (GAD-7)\<close> selected, the same of the GAD-7 listing. When no save
  of the history was made at a clock reading later than now, that is every row of the
  selected listing. Each listing holds exactly the rows of its own table; the points carry
  the score and the parsed timestamp of the rows, one for one; and both listings are newest
  first.
\<close>

theorem all_time_returns_entries_up_to_now:
  assumes "wall_clock_calls calls" and "store self = run_saves calls fresh_db"
    and "time_filter self = ''All Time''"
  shows "resolve_window days_before now self = (datetime_min, now) \<and>
     (graph_select self = ''Depression (Burns)'' \<longrightarrow>
        update_graph days_before now self =
          Inr (points (filter (not_after now) (get_all_entries (store self)))) \<and>
        (saved_by now calls \<longrightarrow>
           update_graph days_before now self = Inr (points (get_all_entries (store self))))) \<and>
     (graph_select self = ''Anxiety (GAD-7)'' \<longrightarrow>
        update_graph days_before now self =
          Inr (points (filter (not_after now) (get_all_gad7_entries (store self)))) \<and>
        (saved_by now calls \<longrightarrow>
           update_graph days_before now self =
             Inr (points (get_all_gad7_entries (store self))))) \<and>
     mset (get_all_entries (store self)) = mset (checklist_entries (store self)) \<and>
     mset (get_all_gad7_entries (store self)) = mset (gad7_entries (store self)) \<and>
     map fst (points (get_all_entries (store self))) = map e_score (get_all_entries (store self)) \<and>
     map (\<lambda>e. strptime (e_timestamp e)) (get_all_entries (store self)) =
       map (Inr \<circ> snd) (points (get_all_entries (store self))) \<and>
     map fst (points (get_all_gad7_entries (store self))) =
       map e_score (get_all_gad7_entries (store self)) \<and>
     map (\<lambda>e. strptime (e_timestamp e)) (get_all_gad7_entries (store self)) =
       map (Inr \<circ> snd) (points (get_all_gad7_entries (store self))) \<and>
     newest_first (get_all_entries (store self)) \<and>
     newest_first (get_all_gad7_entries (store self))"
proof -
  have wf: "timestamps_well_formed (store self)"
    unfolding assms(2) by (rule well_formed_run_saves [OF assms(1) well_formed_fresh_db])
  note p = well_formed_parses [OF wf]
  note lp = p [THEN parses_listing]
  note upd = update_graph_all_time [OF p assms(3), of days_before now]
  have every: "filter (not_after now) (get_all_entries (store self)) = get_all_entries (store self)"
      "filter (not_after now) (get_all_gad7_entries (store self)) =
        get_all_gad7_entries (store self)"
    if "saved_by now calls"
  proof -
    from not_after_history [OF assms(1) that] assms(2)
    have "list_all (not_after now) (checklist_entries (store self))"
        "list_all (not_after now) (gad7_entries (store self))"
      by simp_all
    then show "filter (not_after now) (get_all_entries (store self)) = get_all_entries (store self)"
        "filter (not_after now) (get_all_gad7_entries (store self)) =
          get_all_gad7_entries (store self)"
      by (simp_all add: get_all_entries_def get_all_gad7_entries_def not_after_listing
          filter_all_not_after)
  qed
  show ?thesis
  proof (intro conjI impI)
    show "resolve_window days_before now self = (datetime_min, now)"
      by (rule all_time_window [OF assms(3)])
    show "update_graph days_before now self =
          Inr (points (filter (not_after now) (get_all_entries (store self))))"
      if "graph_select self = ''Depression (Burns)''"
      using that by (rule upd(1))
    show "update_graph days_before now self = Inr (points (get_all_entries (store self)))"
      if "graph_select self = ''Depression (Burns)''" and "saved_by now calls"
      using upd(1) [OF that(1)] every(1) [OF that(2)] by simp
    show "update_graph days_before now self =
          Inr (points (filter (not_after now) (get_all_gad7_entries (store self))))"
      if "graph_select self = ''Anxiety (GAD-7)''"
      using that by (rule upd(2))
    show "update_graph days_before now self = Inr (points (get_all_gad7_entries (store self)))"
      if "graph_select self = ''Anxiety (GAD-7)''" and "saved_by now calls"
      using upd(2) [OF that(1)] every(2) [OF that(2)] by simp
    show "mset (get_all_entries (store self)) = mset (checklist_entries (store self))"
      unfolding get_all_entries_def by (rule mset_order_by_timestamp_desc)
    show "mset (get_all_gad7_entries (store self)) = mset (gad7_entries (store self))"
      unfolding get_all_gad7_entries_def by (rule mset_order_by_timestamp_desc)
    show "map fst (points (get_all_entries (store self))) = map e_score (get_all_entries (store self))"
      unfolding get_all_entries_def by (rule points_fst [OF lp(1)])
    show "map (\<lambda>e. strptime (e_timestamp e)) (get_all_entries (store self)) =
       map (Inr \<circ> snd) (points (get_all_entries (store self)))"
      unfolding get_all_entries_def by (rule points_parse [OF lp(1)])
    show "map fst (points (get_all_gad7_entries (store self))) =
       map e_score (get_all_gad7_entries (store self))"
      unfolding get_all_gad7_entries_def by (rule points_fst [OF lp(2)])
    show "map (\<lambda>e. strptime (e_timestamp e)) (get_all_gad7_entries (store self)) =
       map (Inr \<circ> snd) (points (get_all_gad7_entries (store self)))"
      unfolding get_all_gad7_entries_def by (rule points_parse [OF lp(2)])
    show "newest_first (get_all_entries (store self))"
      unfolding get_all_entries_def by (rule newest_first_listing [OF p(1)])
    show "newest_first (get_all_gad7_entries (store self))"
      unfolding get_all_gad7_entries_def by (rule newest_first_listing [OF p(2)])
  qed
qed

theorem all_time_returns_entries_up_to_now_witness:
  "wall_clock_calls example_calls \<and>
   store (example_tracker\<lparr>store := example_db\<rparr>) = run_saves example_calls fresh_db \<and>
   time_filter (example_tracker\<lparr>store := example_db\<rparr>) = ''All Time'' \<and>
   graph_select (example_tracker\<lparr>store := example_db\<rparr>) = ''Depression (Burns)'' \<and>
   saved_by clock_c example_calls \<and>
   update_graph (\<lambda>t n. t) clock_c (example_tracker\<lparr>store := example_db\<rparr>) =
     Inr [(30, \<lparr>year = 2024, month = 3, day = 5, hour = 9, minute = 7, second = 1,
                microsecond = 0\<rparr>),
          (7, \<lparr>year = 2023, month = 12, day = 31, hour = 23, minute = 59, second = 59,
               microsecond = 0\<rparr>)] \<and>
   graph_select (example_tracker\<lparr>store := example_db, graph_select := ''Anxiety (GAD-7)''\<rparr>) =
     ''Anxiety (GAD-7)'' \<and>
   update_graph (\<lambda>t n. t) clock_c
     (example_tracker\<lparr>store := example_db, graph_select := ''Anxiety (GAD-7)''\<rparr>) =
     Inr [(10, \<lparr>year = 2024, month = 3, day = 5, hour = 9, minute = 7, second = 1,
                microsecond = 0\<rparr>)] \<and>
   update_graph (\<lambda>t n. t) clock_a (example_tracker\<lparr>store := example_db\<rparr>) =
     Inr [(7, \<lparr>year = 2023, month = 12, day = 31, hour = 23, minute = 59, second = 59,
               microsecond = 0\<rparr>)]"
proof -
  have st: "store (example_tracker\<lparr>store := example_db\<rparr>) = run_saves example_calls fresh_db"
      "store (example_tracker\<lparr>store := example_db, graph_select := ''Anxiety (GAD-7)''\<rparr>) =
        run_saves example_calls fresh_db"
    by (simp_all add: example_db_def)
  have tf: "time_filter (example_tracker\<lparr>store := example_db\<rparr>) = ''All Time''"
      "time_filter (example_tracker\<lparr>store := example_db, graph_select := ''Anxiety (GAD-7)''\<rparr>) =
        ''All Time''"
    by (simp_all add: example_tracker_def)
  have gs: "graph_select (example_tracker\<lparr>store := example_db\<rparr>) = ''Depression (Burns)''"
    by (simp add: example_tracker_def)
  have na: "filter (not_after clock_a) (get_all_entries example_db) =
      [\<lparr>e_id = 2, e_score = 7, e_level = ''Normal but unhappy'',
        e_timestamp = ''2023-12-31 23:59:59''\<rparr>]"
    by (simp add: example_listing not_after_def strptime_clock_a strptime_clock_b datetime_le_def
        datetime_key_def clock_a_def)
  note t1 = all_time_returns_entries_up_to_now
    [OF example_calls_wall_clock st(1) tf(1), of "\<lambda>t n. t" clock_c]
  note t2 = all_time_returns_entries_up_to_now
    [OF example_calls_wall_clock st(2) tf(2), of "\<lambda>t n. t" clock_c]
  note t3 = all_time_returns_entries_up_to_now
    [OF example_calls_wall_clock st(1) tf(1), of "\<lambda>t n. t" clock_a]
  have gs2: "graph_select (example_tracker\<lparr>store := example_db, graph_select := ''Anxiety (GAD-7)''\<rparr>) =
      ''Anxiety (GAD-7)''"
    by simp
  have a: "update_graph (\<lambda>t n. t) clock_c (example_tracker\<lparr>store := example_db\<rparr>) =
      Inr (points (get_all_entries example_db))"
    using t1 [THEN conjunct2, THEN conjunct1, THEN mp, OF gs, THEN conjunct2, THEN mp,
        OF saved_by_example]
    by simp
  have b: "update_graph (\<lambda>t n. t) clock_c
      (example_tracker\<lparr>store := example_db, graph_select := ''Anxiety (GAD-7)''\<rparr>) =
      Inr (points (get_all_gad7_entries example_db))"
    using t2 [THEN conjunct2, THEN conjunct2, THEN conjunct1, THEN mp, OF gs2, THEN conjunct2,
        THEN mp, OF saved_by_example]
    by simp
  have c: "update_graph (\<lambda>t n. t) clock_a (example_tracker\<lparr>store := example_db\<rparr>) =
      Inr (points (filter (not_after clock_a) (get_all_entries example_db)))"
    using t3 [THEN conjunct2, THEN conjunct1, THEN mp, OF gs, THEN conjunct1]
    by simp
  show ?thesis
    unfolding a b c na st tf gs
    by (simp add: example_calls_wall_clock saved_by_example example_listing
        example_gad7_listing points_def strptime_clock_a strptime_clock_b)
qed

section \<open>Stored timestamps\<close>

lemma saved_timestamp:
  assumes "sqlite_int64 score"
  shows "e_timestamp (last (checklist_entries (snd (save_score now score db)))) = strftime now"
    and "e_timestamp (last (gad7_entries (snd (save_gad7_score now score db)))) = strftime now"
  by (simp_all add: save_score_result [OF assms] save_gad7_score_result [OF assms])

text \<open>
  Claim C10. The timestamp a save operation stores is the rendering of its clock reading.
  For a wall-clock reading (a valid date-time from the year 1000 on) it is a string of the
  fixed layout of 19 characters, at second resolution, which the parser reads back as the
  clock reading without its microseconds. On strings the parser accepts, the
  character-by-character order is the order of the times they denote. The database is well
  formed (every stored timestamp has the layout and parses) when fresh, stays so under both
  save operations at a wall-clock reading, and so is well formed after any history of such
  saves. In a well-formed database both listings are newest first in time, and the filter
  parses every listed timestamp: it returns a result, never the parser's exception.
\<close>

theorem stored_timestamps_fixed_width_and_ordered:
  "(wall_clock now \<longrightarrow>
      timestamp_format (strftime now) \<and> length (strftime now) = 19 \<and>
      strptime (strftime now) = Inr (now\<lparr>microsecond := 0\<rparr>)) \<and>
   (sqlite_int64 score \<longrightarrow>
      e_timestamp (last (checklist_entries (snd (save_score now score db)))) = strftime now \<and>
      e_timestamp (last (gad7_entries (snd (save_gad7_score now score db)))) = strftime now) \<and>
   timestamps_well_formed fresh_db \<and>
   (wall_clock now \<and> timestamps_well_formed db \<longrightarrow>
      timestamps_well_formed (snd (save_score now score db)) \<and>
      timestamps_well_formed (snd (save_gad7_score now score db))) \<and>
   (wall_clock_calls calls \<longrightarrow> timestamps_well_formed (run_saves calls fresh_db)) \<and>
   (strptime s1 = Inr d1 \<and> strptime s2 = Inr d2 \<longrightarrow> (s1 \<le> s2 \<longleftrightarrow> datetime_le d1 d2)) \<and>
   (timestamps_well_formed db \<longrightarrow>
      newest_first (get_all_entries db) \<and> newest_first (get_all_gad7_entries db) \<and>
      list_all parses (get_all_entries db) \<and> list_all parses (get_all_gad7_entries db) \<and>
      (\<exists>pts. filter_entries start end (get_all_entries db) = Inr pts) \<and>
      (\<exists>pts. filter_entries start end (get_all_gad7_entries db) = Inr pts))"
proof (intro conjI impI)
  show "timestamp_format (strftime now)" if "wall_clock now"
    using that by (rule timestamp_format_strftime)
  show "length (strftime now) = 19" if "wall_clock now"
    using that by (rule length_strftime)
  show "strptime (strftime now) = Inr (now\<lparr>microsecond := 0\<rparr>)" if "wall_clock now"
    using that by (rule strptime_strftime)
  show "e_timestamp (last (checklist_entries (snd (save_score now score db)))) = strftime now"
    if "sqlite_int64 score"
    using that by (rule saved_timestamp(1))
  show "e_timestamp (last (gad7_entries (snd (save_gad7_score now score db)))) = strftime now"
    if "sqlite_int64 score"
    using that by (rule saved_timestamp(2))
  show "timestamps_well_formed fresh_db" by (rule well_formed_fresh_db)
  show "timestamps_well_formed (snd (save_score now score db))"
    if "wall_clock now \<and> timestamps_well_formed db"
    using that by (simp add: well_formed_save_score)
  show "timestamps_well_formed (snd (save_gad7_score now score db))"
    if "wall_clock now \<and> timestamps_well_formed db"
    using that by (simp add: well_formed_save_gad7_score)
  show "timestamps_well_formed (run_saves calls fresh_db)" if "wall_clock_calls calls"
    using that well_formed_fresh_db by (rule well_formed_run_saves)
  show "s1 \<le> s2 \<longleftrightarrow> datetime_le d1 d2" if "strptime s1 = Inr d1 \<and> strptime s2 = Inr d2"
    using that by (simp add: timestamp_order)
next
  assume wf: "timestamps_well_formed db"
  note p = well_formed_parses [OF wf]
  note lp = p [THEN parses_listing]
  show "newest_first (get_all_entries db)"
    unfolding get_all_entries_def by (rule newest_first_listing [OF p(1)])
  show "newest_first (get_all_gad7_entries db)"
    unfolding get_all_gad7_entries_def by (rule newest_first_listing [OF p(2)])
  show "list_all parses (get_all_entries db)"
    unfolding get_all_entries_def by (rule lp(1))
  show "list_all parses (get_all_gad7_entries db)"
    unfolding get_all_gad7_entries_def by (rule lp(2))
  show "\<exists>pts. filter_entries start end (get_all_entries db) = Inr pts"
    unfolding get_all_entries_def using filter_entries_points [OF lp(1), of start "end"]
    by (intro exI)
  show "\<exists>pts. filter_entries start end (get_all_gad7_entries db) = Inr pts"
    unfolding get_all_gad7_entries_def using filter_entries_points [OF lp(2), of start "end"]
    by (intro exI)
qed

theorem stored_timestamps_fixed_width_and_ordered_witness:
  "wall_clock clock_c \<and> strftime clock_c = ''2024-03-05 09:07:02'' \<and>
   strptime ''2024-03-05 09:07:02'' = Inr (clock_c\<lparr>microsecond := 0\<rparr>) \<and>
   sqlite_int64 101 \<and>
   e_timestamp (last (checklist_entries (snd (save_score clock_c 101 example_db)))) =
     ''2024-03-05 09:07:02'' \<and>
   timestamps_well_formed example_db \<and>
   timestamps_well_formed (snd (save_score clock_c 101 example_db)) \<and>
   wall_clock_calls example_calls \<and>
   strptime ''2023-12-31 23:59:59'' =
     Inr \<lparr>year = 2023, month = 12, day = 31, hour = 23, minute = 59, second = 59,
          microsecond = 0\<rparr> \<and>
   strptime ''2024-03-05 09:07:01'' =
     Inr \<lparr>year = 2024, month = 3, day = 5, hour = 9, minute = 7, second = 1,
          microsecond = 0\<rparr> \<and>
   ''2023-12-31 23:59:59'' \<le> ''2024-03-05 09:07:01'' \<and>
   datetime_le
     \<lparr>year = 2023, month = 12, day = 31, hour = 23, minute = 59, second = 59, microsecond = 0\<rparr>
     \<lparr>year = 2024, month = 3, day = 5, hour = 9, minute = 7, second = 1, microsecond = 0\<rparr> \<and>
   newest_first (get_all_entries example_db) \<and>
   filter_entries clock_a clock_c (get_all_entries example_db) =
     Inr [(30, \<lparr>year = 2024, month = 3, day = 5, hour = 9, minute = 7, second = 1,
                microsecond = 0\<rparr>)]"
proof -
  note t = stored_timestamps_fixed_width_and_ordered [of clock_c 101 example_db example_calls
      "''2023-12-31 23:59:59''"
      "\<lparr>year = 2023, month = 12, day = 31, hour = 23, minute = 59, second = 59,
        microsecond = 0\<rparr>"
      "''2024-03-05 09:07:01''"
      "\<lparr>year = 2024, month = 3, day = 5, hour = 9, minute = 7, second = 1, microsecond = 0\<rparr>"
      clock_a clock_c]
  have i: "sqlite_int64 101" by (simp add: sqlite_int64_def)
  from t wall_clocks(3)
  have a: "strptime (strftime clock_c) = Inr (clock_c\<lparr>microsecond := 0\<rparr>)"
    by simp
  from t i
  have b: "e_timestamp (last (checklist_entries (snd (save_score clock_c 101 example_db)))) =
      strftime clock_c"
    by simp
  from t wall_clocks(3) example_db_well_formed
  have c: "timestamps_well_formed (snd (save_score clock_c 101 example_db))"
    by simp
  from t example_db_well_formed
  have d: "newest_first (get_all_entries example_db)"
    by simp
  from t strptime_clock_a strptime_clock_b
  have e: "''2023-12-31 23:59:59'' \<le> ''2024-03-05 09:07:01'' \<longleftrightarrow>
      datetime_le
        \<lparr>year = 2023, month = 12, day = 31, hour = 23, minute = 59, second = 59,
          microsecond = 0\<rparr>
        \<lparr>year = 2024, month = 3, day = 5, hour = 9, minute = 7, second = 1, microsecond = 0\<rparr>"
    by simp
  have f: "filter_entries clock_a clock_c (get_all_entries example_db) =
     Inr [(30, \<lparr>year = 2024, month = 3, day = 5, hour = 9, minute = 7, second = 1,
                microsecond = 0\<rparr>)]"
    by (simp add: example_listing strptime_clock_a strptime_clock_b datetime_le_def
        datetime_key_def clock_a_def clock_c_def)
  from a b c d e f show ?thesis
    by (simp add: wall_clocks(3) strftime_clock_c i example_db_well_formed
        example_calls_wall_clock strptime_clock_a strptime_clock_b)
qed

end
